theory Spec2Isabelle
  imports Complex_Main "HOL-Library.Word"
begin

section \<open>Data model of the bipartite GraphSAGE instance reader\<close>

text \<open>
  The embedding follows \<^verbatim>\<open>src/model/instance_reader/unsup_bipartite_graphsage_inst_reader.cc\<close>.
  A node identifier \<^verbatim>\<open>int_t\<close> is an unsigned 64-bit value, a node type tag a
  \<^verbatim>\<open>uint16_t\<close>, a C++ \<^verbatim>\<open>int\<close> a 32-bit word read with \<open>sint\<close>, and
  \<^verbatim>\<open>size_t\<close> an unsigned 64-bit value. An unordered set of nodes is given by the list
  of its elements in iteration order.
\<close>

type_synonym int_t = "64 word"
type_synonym uint16_t = "16 word"
type_synonym cint = "32 word"
type_synonym size_t = "64 word"
type_synonym float_t = real
type_synonym vec_int_t = "int_t list"
type_synonym set_t = "int_t list"
type_synonym vec_set_t = "set_t list"
type_synonym map_neigh_t = "(int_t \<times> vec_int_t) list"
type_synonym vec_map_neigh_t = "map_neigh_t list"

text \<open>
  A sparse matrix \<^verbatim>\<open>csr_t\<close> is the list of its rows; \<^verbatim>\<open>emplace(col, value)\<close>
  followed by \<^verbatim>\<open>add_row()\<close> appends the row \<open>[(col, value)]\<close>.
\<close>

type_synonym csr_t = "(int_t \<times> float_t) list list"

text \<open>
  \<^verbatim>\<open>DXCHECK\<close> aborts when its condition is false (\<open>CheckFailed\<close>). Reading element 0 of
  an empty \<^verbatim>\<open>std::vector\<close> has no defined behaviour in C++; the model makes it the
  error \<open>OutOfRange\<close>, so that no result is ever derived from such a read.
\<close>

datatype error = CheckFailed | OutOfRange

text \<open>
  One \<^verbatim>\<open>DXERROR\<close> line of \<^verbatim>\<open>ParseUserAndItemFrom\<close>: the node, its tag and the two
  expected tags, the tags converted to \<^verbatim>\<open>int\<close> as the format arguments are.
\<close>

datatype diagnostic = InvalidNode int_t cint cint cint

text \<open>The records read from the input: \<^verbatim>\<open>EdgeValue\<close> and \<^verbatim>\<open>NodeValue\<close>, with the
  fields this reader collects.\<close>

record EdgeValue =
  src_node :: int_t
  dst_node :: int_t

record NodeValue =
  node :: int_t

subsection \<open>The local index table\<close>

text \<open>
  Modelled from the spec: class \<^verbatim>\<open>Indexing\<close> (\<^verbatim>\<open>src/io/indexing.h\<close>) and
  \<^verbatim>\<open>inst_util::CreateIndexings\<close> are not among the sources. The spec's LocalIndexTable
  is built from an ordered set of nodes, the insertion order giving the index order;
  \<^verbatim>\<open>Get\<close> yields the index of a node, or a negative index for a node never inserted;
  \<^verbatim>\<open>Size\<close> is the number of nodes. \<^verbatim>\<open>Get\<close> returns a C++ \<^verbatim>\<open>int\<close> and
  \<^verbatim>\<open>Size\<close> a \<^verbatim>\<open>size_t\<close>, as their uses in the reader show.
\<close>

datatype Indexing = Indexing (keys: "int_t list")

fun position :: "int_t list \<Rightarrow> int_t \<Rightarrow> nat option" where
  "position [] k = None"
| "position (x # xs) k = (if x = k then Some 0 else map_option Suc (position xs k))"

definition Indexing_Get :: "Indexing \<Rightarrow> int_t \<Rightarrow> cint" where
  "Indexing_Get t k = (case position (keys t) k of None \<Rightarrow> - 1 | Some i \<Rightarrow> of_nat i)"

definition Indexing_Size :: "Indexing \<Rightarrow> size_t" where
  "Indexing_Size t = of_nat (length (keys t))"

text \<open>
  Modelled from the spec: \<^verbatim>\<open>CreateIndexings\<close> replaces all prior tables by one fresh
  table per hop level, built from the level's node set.
\<close>

definition CreateIndexings :: "vec_set_t \<Rightarrow> Indexing list" where
  "CreateIndexings level_nodes = map Indexing level_nodes"

text \<open>
  The contract of a table: each node is present once, and every index fits the
  \<^verbatim>\<open>int\<close> that \<^verbatim>\<open>Get\<close> returns.
\<close>

definition Indexing_ok :: "Indexing \<Rightarrow> bool" where
  "Indexing_ok t = (distinct (keys t) \<and> length (keys t) \<le> 2 ^ 31)"

subsection \<open>Classification of nodes by type tag\<close>

text \<open>
  \<^verbatim>\<open>ParseUserAndItemFrom\<close> (lines 33-47). The extraction function
  \<^verbatim>\<open>io_util::GetNodeType\<close> is not among the sources and is the parameter \<open>gnt\<close>. The two
  output vectors are appended to, so they are passed in and returned; the third component
  is the error log that \<^verbatim>\<open>DXERROR\<close> writes to.
\<close>

fun ParseUserAndItemFrom ::
  "(int_t \<Rightarrow> uint16_t) \<Rightarrow> vec_int_t \<Rightarrow> uint16_t \<Rightarrow> uint16_t \<Rightarrow>
   vec_int_t \<times> vec_int_t \<times> diagnostic list \<Rightarrow> vec_int_t \<times> vec_int_t \<times> diagnostic list" where
  "ParseUserAndItemFrom gnt [] user_group item_group out = out"
| "ParseUserAndItemFrom gnt (x # nodes) user_group item_group (user_nodes, item_nodes, lg) =
     (let group = gnt x in
      if group = user_group then
        ParseUserAndItemFrom gnt nodes user_group item_group (user_nodes @ [x], item_nodes, lg)
      else if group = item_group then
        ParseUserAndItemFrom gnt nodes user_group item_group (user_nodes, item_nodes @ [x], lg)
      else
        ParseUserAndItemFrom gnt nodes user_group item_group
          (user_nodes, item_nodes,
           lg @ [InvalidNode x (ucast group) (ucast user_group) (ucast item_group)]))"

subsection \<open>The output instance\<close>

text \<open>
  Modelled from the spec: class \<^verbatim>\<open>Instance\<close> is not among the sources. It is a named bag
  of typed values with a batch size: \<^verbatim>\<open>get_or_insert<T>(name)\<close> reaches the value of
  type \<open>T\<close> stored under \<open>name\<close>, \<^verbatim>\<open>set_batch\<close> stores the batch size and
  \<^verbatim>\<open>clear_batch\<close> marks the instance empty. Tensors, which only the feature flow
  writes, are of the parameter type \<open>'t\<close>.
\<close>

record 't Instance =
  batch :: cint
  csr_items :: "string \<rightharpoonup> csr_t"
  vec_int_items :: "string \<rightharpoonup> vec_int_t"
  tsr_items :: "string \<rightharpoonup> 't"

definition set_batch :: "'t Instance \<Rightarrow> cint \<Rightarrow> 't Instance" where
  "set_batch inst b = inst\<lparr>batch := b\<rparr>"

definition clear_batch :: "'t Instance \<Rightarrow> 't Instance" where
  "clear_batch inst = inst\<lparr>batch := 0\<rparr>"

subsection \<open>Collaborators\<close>

text \<open>
  What the reader calls and this source file does not define, taken as parameters: the
  type-tag extraction, the record source (\<^verbatim>\<open>line_parser_\<close>, whose \<^verbatim>\<open>NextBatch\<close>
  returns a success flag and the records read), the graph client's negative sampler
  (a success flag and one list of negatives per anchor), the flow's sub-graph sampler
  and its fill operations, and the names of the instance's entries. The two index
  functions handed to \<^verbatim>\<open>FillEdgeAndLabel\<close> can abort, and so can the call.
\<close>

record ('src, 't) collaborators =
  GetNodeType :: "int_t \<Rightarrow> uint16_t"
  NextBatch_EdgeValue :: "'src \<Rightarrow> cint \<Rightarrow> bool \<times> EdgeValue list \<times> 'src"
  NextBatch_NodeValue :: "'src \<Rightarrow> cint \<Rightarrow> bool \<times> NodeValue list \<times> 'src"
  Close :: "'src \<Rightarrow> 'src"
  SharedSampleNegative :: "cint \<Rightarrow> vec_int_t \<Rightarrow> vec_int_t \<Rightarrow> bool \<times> vec_int_t list"
  SampleSubGraph :: "vec_int_t \<Rightarrow> cint list \<Rightarrow> vec_set_t \<times> vec_map_neigh_t"
  FillLevelNodeFeature :: "'t Instance \<Rightarrow> string \<Rightarrow> vec_set_t \<Rightarrow> 't Instance"
  FillLevelNeighFeature :: "'t Instance \<Rightarrow> string \<Rightarrow> vec_set_t \<Rightarrow> 't Instance"
  FillSelfAndNeighGraphBlock ::
    "'t Instance \<Rightarrow> string \<Rightarrow> string \<Rightarrow> vec_set_t \<Rightarrow> vec_map_neigh_t \<Rightarrow> Indexing list \<Rightarrow>
     bool \<Rightarrow> 't Instance"
  FillEdgeAndLabel ::
    "'t Instance \<Rightarrow> string \<Rightarrow> string \<Rightarrow> string \<Rightarrow> vec_int_t \<Rightarrow> vec_int_t \<Rightarrow>
     vec_int_t list \<Rightarrow> (int_t \<Rightarrow> error + int_t) \<Rightarrow> (int_t \<Rightarrow> error + int_t) \<Rightarrow>
     error + 't Instance"
  X_SRC_ID_NAME :: string
  X_DST_ID_NAME :: string
  Y_NAME :: string
  X_PREDICT_NODE_NAME :: string
  X_NODE_FEATURE_NAME :: string
  X_NEIGH_FEATURE_NAME :: string
  X_SELF_BLOCK_NAME :: string
  X_NEIGH_BLOCK_NAME :: string

definition USER_ENCODER_NAME :: string where
  "USER_ENCODER_NAME = ''USER_ENCODER_NAME''"

definition ITEM_ENCODER_NAME :: string where
  "ITEM_ENCODER_NAME = ''ITEM_ENCODER_NAME''"

subsection \<open>The reader\<close>

text \<open>
  The members of \<^verbatim>\<open>UnsupBipartiteInstReader\<close> (lines 55-71), with \<^verbatim>\<open>batch_\<close> and
  \<^verbatim>\<open>line_parser_\<close> of its base class. A member \<^verbatim>\<open>m_\<close> is the field \<open>m\<close>,
  and \<^verbatim>\<open>batch_\<close> is \<open>reader_batch\<close>. Two fields record effects outside the object:
  \<open>error_log\<close> is what \<^verbatim>\<open>DXERROR\<close> has written, and \<open>requests\<close> lists the sampling
  requests sent so far, in call order.
\<close>

datatype request =
  NegativeRequest cint vec_int_t vec_int_t
| SubGraphRequest vec_int_t "cint list"

record 'src reader =
  is_train :: bool
  num_neg :: cint
  num_neighbors :: "cint list"
  use_neigh_feat :: bool
  user_ns_id :: uint16_t
  item_ns_id :: uint16_t
  reader_batch :: cint
  line_parser :: 'src
  src_nodes :: vec_int_t
  dst_nodes :: vec_int_t
  neg_nodes_list :: "vec_int_t list"
  user_indexings :: "Indexing list"
  item_indexings :: "Indexing list"
  error_log :: "diagnostic list"
  requests :: "request list"

text \<open>
  The lambda \<^verbatim>\<open>index_func\<close> of \<^verbatim>\<open>GetTrainBatch\<close> (lines 154-164). Its return type is
  deduced as the 64-bit \<^verbatim>\<open>int_t\<close>; \<^verbatim>\<open>(int_t)index\<close> extends the sign of the
  \<^verbatim>\<open>int\<close>, and the addition is that of unsigned 64-bit values.
\<close>

definition index_func :: "('src, 't) collaborators \<Rightarrow> 'src reader \<Rightarrow> int_t \<Rightarrow> error + int_t" where
  "index_func C rd x =
     (let group = GetNodeType C x in
      if group = user_ns_id rd then
        (case user_indexings rd of
           [] \<Rightarrow> Inl OutOfRange
         | tu # _ \<Rightarrow>
             let index = Indexing_Get tu x in
             if 0 \<le> sint index then Inr (scast index) else Inl CheckFailed)
      else
        (case item_indexings rd of
           [] \<Rightarrow> Inl OutOfRange
         | ti # _ \<Rightarrow>
             let index = Indexing_Get ti x in
             if 0 \<le> sint index then
               (case user_indexings rd of
                  [] \<Rightarrow> Inl OutOfRange
                | tu # _ \<Rightarrow> Inr (scast index + Indexing_Size tu))
             else Inl CheckFailed))"

text \<open>
  The member \<^verbatim>\<open>Index\<close> (lines 212-222): the same body, but the declared return type is
  \<^verbatim>\<open>int\<close>, so each returned 64-bit value is narrowed to 32 bits.
\<close>

definition Index :: "('src, 't) collaborators \<Rightarrow> 'src reader \<Rightarrow> int_t \<Rightarrow> error + cint" where
  "Index C rd x =
     (let group = GetNodeType C x in
      if group = user_ns_id rd then
        (case user_indexings rd of
           [] \<Rightarrow> Inl OutOfRange
         | tu # _ \<Rightarrow>
             let index = Indexing_Get tu x in
             if 0 \<le> sint index then Inr (ucast (scast index :: int_t)) else Inl CheckFailed)
      else
        (case item_indexings rd of
           [] \<Rightarrow> Inl OutOfRange
         | ti # _ \<Rightarrow>
             let index = Indexing_Get ti x in
             if 0 \<le> sint index then
               (case user_indexings rd of
                  [] \<Rightarrow> Inl OutOfRange
                | tu # _ \<Rightarrow> Inr (ucast ((scast index :: int_t) + Indexing_Size tu)))
             else Inl CheckFailed))"

text \<open>
  \<^verbatim>\<open>FillIndex\<close> (lines 224-232): the matrix under \<open>name\<close> is cleared, then one row
  \<open>[(Index(node), 1)]\<close> is added per node; the column of a matrix is an \<^verbatim>\<open>int_t\<close>, so the
  \<^verbatim>\<open>int\<close> that \<^verbatim>\<open>Index\<close> returns is sign-extended. An abort inside \<^verbatim>\<open>Index\<close> ends
  the loop.
\<close>

fun FillIndex_loop ::
  "('src, 't) collaborators \<Rightarrow> 'src reader \<Rightarrow> vec_int_t \<Rightarrow> csr_t \<Rightarrow> error + csr_t" where
  "FillIndex_loop C rd [] rows = Inr rows"
| "FillIndex_loop C rd (x # nodes) rows =
     (case Index C rd x of
        Inl e \<Rightarrow> Inl e
      | Inr i \<Rightarrow> FillIndex_loop C rd nodes (rows @ [[(scast i, 1)]]))"

definition FillIndex ::
  "('src, 't) collaborators \<Rightarrow> 'src reader \<Rightarrow> 't Instance \<Rightarrow> string \<Rightarrow> vec_int_t \<Rightarrow>
   error + 't Instance" where
  "FillIndex C rd inst name nodes =
     (case FillIndex_loop C rd nodes [] of
        Inl e \<Rightarrow> Inl e
      | Inr rows \<Rightarrow> Inr (inst\<lparr>csr_items := (csr_items inst)(name \<mapsto> rows)\<rparr>))"

text \<open>
  \<^verbatim>\<open>FillInstance\<close> (lines 234-260). The tables it builds are returned, and the caller
  stores them in the member that the pointer \<^verbatim>\<open>indexings\<close> designates.
\<close>

definition FillInstance ::
  "('src, 't) collaborators \<Rightarrow> 'src reader \<Rightarrow> 't Instance \<Rightarrow> string \<Rightarrow> vec_int_t \<Rightarrow> cint list \<Rightarrow>
   'src reader \<times> 't Instance \<times> Indexing list" where
  "FillInstance C rd inst encoder_name nodes num_neighbors' =
     (let (level_nodes, level_neighs) = SampleSubGraph C nodes num_neighbors';
          rd1 = rd\<lparr>requests := requests rd @ [SubGraphRequest nodes num_neighbors']\<rparr>;
          inst1 = FillLevelNodeFeature C inst (X_NODE_FEATURE_NAME C @ encoder_name) level_nodes;
          inst2 = (if use_neigh_feat rd1
                   then FillLevelNeighFeature C inst1 (X_NEIGH_FEATURE_NAME C @ encoder_name)
                          level_nodes
                   else inst1);
          indexings = CreateIndexings level_nodes;
          inst3 = FillSelfAndNeighGraphBlock C inst2 (X_SELF_BLOCK_NAME C @ encoder_name)
                    (X_NEIGH_BLOCK_NAME C @ encoder_name) level_nodes level_neighs indexings False
      in (rd1, inst3, indexings))"

text \<open>
  \<^verbatim>\<open>GetTrainBatch\<close>, lines 131-151: from the records read to the two filled encoders.
  \<^verbatim>\<open>Collect\<close>, which is not among the sources, gathers one field of every record, in
  the order of the records. The three classification steps append to the same two vectors.
\<close>

definition GetTrainBatch_index ::
  "('src, 't) collaborators \<Rightarrow> 'src reader \<Rightarrow> 't Instance \<Rightarrow> EdgeValue list \<Rightarrow>
   error + 'src reader \<times> 't Instance" where
  "GetTrainBatch_index C rd inst values =
     (let rd1 = rd\<lparr>src_nodes := map src_node values, dst_nodes := map dst_node values\<rparr>;
          (ok, negs) = SharedSampleNegative C (num_neg rd1) (dst_nodes rd1) (dst_nodes rd1);
          rd2 = rd1\<lparr>neg_nodes_list := negs,
                    requests := requests rd1 @
                      [NegativeRequest (num_neg rd1) (dst_nodes rd1) (dst_nodes rd1)]\<rparr>
      in if \<not> ok then Inl CheckFailed
         else
           let parse = (\<lambda>nodes. ParseUserAndItemFrom (GetNodeType C) nodes
                                  (user_ns_id rd2) (item_ns_id rd2));
               (user_nodes, item_nodes, lg) =
                 fold parse (neg_nodes_list rd2)
                   (parse (dst_nodes rd2) (parse (src_nodes rd2) ([], [], error_log rd2)));
               rd3 = rd2\<lparr>error_log := lg\<rparr>;
               (rd4, inst1, user_tables) =
                 FillInstance C rd3 inst USER_ENCODER_NAME user_nodes (num_neighbors rd3);
               rd5 = rd4\<lparr>user_indexings := user_tables\<rparr>;
               (rd6, inst2, item_tables) =
                 FillInstance C rd5 inst1 ITEM_ENCODER_NAME item_nodes (num_neighbors rd5);
               rd7 = rd6\<lparr>item_indexings := item_tables\<rparr>
           in Inr (rd7, inst2))"

text \<open>
  \<^verbatim>\<open>GetTrainBatch\<close> (lines 123-173): the end of the stream, the steps above, then the
  edges and labels with \<^verbatim>\<open>index_func\<close> for both endpoints, and the batch size
  \<^verbatim>\<open>(int)src_nodes_.size()\<close>.
\<close>

definition GetTrainBatch ::
  "('src, 't) collaborators \<Rightarrow> 'src reader \<Rightarrow> 't Instance \<Rightarrow>
   error + bool \<times> 'src reader \<times> 't Instance" where
  "GetTrainBatch C rd inst =
     (let (ok, values, lp) = NextBatch_EdgeValue C (line_parser rd) (reader_batch rd) in
      if \<not> ok then Inr (False, rd\<lparr>line_parser := Close C lp\<rparr>, clear_batch inst)
      else
        (case GetTrainBatch_index C (rd\<lparr>line_parser := lp\<rparr>) inst values of
           Inl e \<Rightarrow> Inl e
         | Inr (rd1, inst1) \<Rightarrow>
             (case FillEdgeAndLabel C inst1 (X_SRC_ID_NAME C) (X_DST_ID_NAME C) (Y_NAME C)
                     (src_nodes rd1) (dst_nodes rd1) (neg_nodes_list rd1)
                     (index_func C rd1) (index_func C rd1) of
                Inl e \<Rightarrow> Inl e
              | Inr inst2 \<Rightarrow>
                  Inr (True, rd1,
                       set_batch inst2 (ucast (of_nat (length (src_nodes rd1)) :: size_t))))))"

text \<open>
  \<^verbatim>\<open>GetPredictBatch\<close>, lines 186-197: from the records read to the two filled encoders.
\<close>

definition GetPredictBatch_index ::
  "('src, 't) collaborators \<Rightarrow> 'src reader \<Rightarrow> 't Instance \<Rightarrow> NodeValue list \<Rightarrow>
   'src reader \<times> 't Instance" where
  "GetPredictBatch_index C rd inst values =
     (let rd1 = rd\<lparr>src_nodes := map node values\<rparr>;
          (user_nodes, item_nodes, lg) =
            ParseUserAndItemFrom (GetNodeType C) (src_nodes rd1)
              (user_ns_id rd1) (item_ns_id rd1) ([], [], error_log rd1);
          rd2 = rd1\<lparr>error_log := lg\<rparr>;
          (rd3, inst1, user_tables) =
            FillInstance C rd2 inst USER_ENCODER_NAME user_nodes (num_neighbors rd2);
          rd4 = rd3\<lparr>user_indexings := user_tables\<rparr>;
          (rd5, inst2, item_tables) =
            FillInstance C rd4 inst1 ITEM_ENCODER_NAME item_nodes (num_neighbors rd4);
          rd6 = rd5\<lparr>item_indexings := item_tables\<rparr>
      in (rd6, inst2))"

text \<open>
  \<^verbatim>\<open>GetPredictBatch\<close> (lines 178-209): the end of the stream, the steps above, then
  the index tensor of the nodes read, the nodes themselves as the predict nodes, and the
  batch size \<^verbatim>\<open>(int)src_nodes_.size()\<close>.
\<close>

definition GetPredictBatch ::
  "('src, 't) collaborators \<Rightarrow> 'src reader \<Rightarrow> 't Instance \<Rightarrow>
   error + bool \<times> 'src reader \<times> 't Instance" where
  "GetPredictBatch C rd inst =
     (let (ok, values, lp) = NextBatch_NodeValue C (line_parser rd) (reader_batch rd) in
      if \<not> ok then Inr (False, rd\<lparr>line_parser := Close C lp\<rparr>, clear_batch inst)
      else
        let (rd1, inst2) = GetPredictBatch_index C (rd\<lparr>line_parser := lp\<rparr>) inst values
        in case FillIndex C rd1 inst2 (X_SRC_ID_NAME C) (src_nodes rd1) of
             Inl e \<Rightarrow> Inl e
           | Inr inst3 \<Rightarrow>
               Inr (True, rd1,
                    set_batch
                      (inst3\<lparr>vec_int_items :=
                                (vec_int_items inst3)(X_PREDICT_NODE_NAME C \<mapsto> src_nodes rd1)\<rparr>)
                      (ucast (of_nat (length (src_nodes rd1)) :: size_t))))"

text \<open>\<^verbatim>\<open>GetBatch\<close> (lines 115-117).\<close>

definition GetBatch ::
  "('src, 't) collaborators \<Rightarrow> 'src reader \<Rightarrow> 't Instance \<Rightarrow>
   error + bool \<times> 'src reader \<times> 't Instance" where
  "GetBatch C rd inst = (if is_train rd then GetTrainBatch C rd inst else GetPredictBatch C rd inst)"

subsection \<open>Contracts of the samplers\<close>

text \<open>
  Modelled from the spec: the graph client and the flow are not among the sources. The
  spec's \<^verbatim>\<open>sample_negatives(k, anchors, pool)\<close> draws the negatives of every anchor from
  the pool it is given.
\<close>

definition draws_from_pool :: "('src, 't) collaborators \<Rightarrow> bool" where
  "draws_from_pool C =
     (\<forall>k anchors pool. \<forall>neg_nodes \<in> set (snd (SharedSampleNegative C k anchors pool)).
        set neg_nodes \<subseteq> set pool)"

text \<open>
  Modelled from the spec: \<^verbatim>\<open>sample_subgraph(seeds, fanouts)\<close> expands outward from the
  seeds and returns one node set per level; the level before any hop, level 0, is the set
  of the seeds (in the spec's first scenario the two user nodes make a user table of size
  2, and in its second a node that is no seed is in neither table).
\<close>

definition level0_is_seeds :: "('src, 't) collaborators \<Rightarrow> bool" where
  "level0_is_seeds C =
     (\<forall>seeds fanouts.
        case fst (SampleSubGraph C seeds fanouts) of
          [] \<Rightarrow> False
        | level0 # _ \<Rightarrow> distinct level0 \<and> set level0 = set seeds)"

section \<open>An instance of the collaborators\<close>

text \<open>
  An instance of the parameters on which the reader can be run, used to evaluate the
  theorems below on concrete batches. A node carries its type tag in its upper 16 bits; the
  record source holds the records still to be read and hands out at most the requested
  number; the negative sampler draws every negative from the pool it is given; the
  sub-graph sampler returns the seeds, without duplicates, as every level; the feature
  fills leave the instance as it is; and the edge fill writes one row per resolved source
  node, and one per resolved destination and negative node.
\<close>

record source =
  edge_records :: "EdgeValue list"
  node_records :: "NodeValue list"
  closed :: bool

definition demo_GetNodeType :: "int_t \<Rightarrow> uint16_t" where
  "demo_GetNodeType x = ucast (drop_bit 48 x)"

definition demo_NextBatch_EdgeValue :: "source \<Rightarrow> cint \<Rightarrow> bool \<times> EdgeValue list \<times> source" where
  "demo_NextBatch_EdgeValue src b =
     (let values = take (nat (sint b)) (edge_records src)
      in (values \<noteq> [], values, src\<lparr>edge_records := drop (nat (sint b)) (edge_records src)\<rparr>))"

definition demo_NextBatch_NodeValue :: "source \<Rightarrow> cint \<Rightarrow> bool \<times> NodeValue list \<times> source" where
  "demo_NextBatch_NodeValue src b =
     (let values = take (nat (sint b)) (node_records src)
      in (values \<noteq> [], values, src\<lparr>node_records := drop (nat (sint b)) (node_records src)\<rparr>))"

definition demo_Close :: "source \<Rightarrow> source" where
  "demo_Close src = src\<lparr>closed := True\<rparr>"

definition demo_SharedSampleNegative ::
  "cint \<Rightarrow> vec_int_t \<Rightarrow> vec_int_t \<Rightarrow> bool \<times> vec_int_t list" where
  "demo_SharedSampleNegative k anchors pool =
     (case pool of
        [] \<Rightarrow> (False, [])
      | p # _ \<Rightarrow> (True, map (\<lambda>_. replicate (nat (sint k)) p) anchors))"

definition demo_SampleSubGraph :: "vec_int_t \<Rightarrow> cint list \<Rightarrow> vec_set_t \<times> vec_map_neigh_t" where
  "demo_SampleSubGraph seeds fanouts =
     (remdups seeds # map (\<lambda>_. remdups seeds) fanouts, map (\<lambda>_. []) fanouts)"

fun resolve_rows :: "(int_t \<Rightarrow> error + int_t) \<Rightarrow> vec_int_t \<Rightarrow> error + csr_t" where
  "resolve_rows f [] = Inr []"
| "resolve_rows f (x # xs) =
     (case f x of
        Inl e \<Rightarrow> Inl e
      | Inr v \<Rightarrow> (case resolve_rows f xs of Inl e \<Rightarrow> Inl e | Inr rows \<Rightarrow> Inr ([(v, 1)] # rows)))"

definition demo_FillEdgeAndLabel ::
  "unit Instance \<Rightarrow> string \<Rightarrow> string \<Rightarrow> string \<Rightarrow> vec_int_t \<Rightarrow> vec_int_t \<Rightarrow> vec_int_t list \<Rightarrow>
   (int_t \<Rightarrow> error + int_t) \<Rightarrow> (int_t \<Rightarrow> error + int_t) \<Rightarrow> error + unit Instance" where
  "demo_FillEdgeAndLabel inst src_name dst_name y_name srcs dsts negs src_index dst_index =
     (case resolve_rows src_index srcs of
        Inl e \<Rightarrow> Inl e
      | Inr src_rows \<Rightarrow>
          (case resolve_rows dst_index (dsts @ concat negs) of
             Inl e \<Rightarrow> Inl e
           | Inr dst_rows \<Rightarrow>
               Inr (inst\<lparr>csr_items := (csr_items inst)(src_name \<mapsto> src_rows, dst_name \<mapsto> dst_rows)\<rparr>)))"

definition demo :: "(source, unit) collaborators" where
  "demo =
     \<lparr>GetNodeType = demo_GetNodeType,
      NextBatch_EdgeValue = demo_NextBatch_EdgeValue,
      NextBatch_NodeValue = demo_NextBatch_NodeValue,
      Close = demo_Close,
      SharedSampleNegative = demo_SharedSampleNegative,
      SampleSubGraph = demo_SampleSubGraph,
      FillLevelNodeFeature = (\<lambda>inst name level_nodes. inst),
      FillLevelNeighFeature = (\<lambda>inst name level_nodes. inst),
      FillSelfAndNeighGraphBlock =
        (\<lambda>inst self_name neigh_name level_nodes level_neighs indexings directed. inst),
      FillEdgeAndLabel = demo_FillEdgeAndLabel,
      X_SRC_ID_NAME = ''X_src_id'',
      X_DST_ID_NAME = ''X_dst_id'',
      Y_NAME = ''Y'',
      X_PREDICT_NODE_NAME = ''X_predict_node'',
      X_NODE_FEATURE_NAME = ''X_node_feature_'',
      X_NEIGH_FEATURE_NAME = ''X_neigh_feature_'',
      X_SELF_BLOCK_NAME = ''X_self_block_'',
      X_NEIGH_BLOCK_NAME = ''X_neigh_block_''\<rparr>"

text \<open>
  A reader with the default members of the class, tags 0 and 1 and no hop, over a given
  record source, and the empty instance. The nodes of the examples: \<open>U1\<close>, \<open>U2\<close> and
  \<open>U3\<close> carry tag 0, \<open>I1\<close> and \<open>I5\<close> tag 1 and \<open>X9\<close> tag 7.
\<close>

definition demo_reader :: "bool \<Rightarrow> cint \<Rightarrow> source \<Rightarrow> source reader" where
  "demo_reader train b src =
     \<lparr>is_train = train, num_neg = 1, num_neighbors = [], use_neigh_feat = False,
      user_ns_id = 0, item_ns_id = 1, reader_batch = b, line_parser = src,
      src_nodes = [], dst_nodes = [], neg_nodes_list = [],
      user_indexings = [], item_indexings = [], error_log = [], requests = []\<rparr>"

definition empty_instance :: "unit Instance" where
  "empty_instance =
     \<lparr>batch = 0, csr_items = Map.empty, vec_int_items = Map.empty, tsr_items = Map.empty\<rparr>"

definition U1 :: int_t where "U1 = 1"
definition U2 :: int_t where "U2 = 2"
definition U3 :: int_t where "U3 = 3"
definition I1 :: int_t where "I1 = 281474976710657"
definition I5 :: int_t where "I5 = 281474976710661"
definition X9 :: int_t where "X9 = 1970324836974601"

text \<open>
  A record source with the two edges of the first scenario and the two nodes of the third,
  and a reader whose level-0 tables hold the nodes of the first scenario.
\<close>

definition demo_source :: source where
  "demo_source =
     \<lparr>edge_records = [\<lparr>src_node = U1, dst_node = I1\<rparr>, \<lparr>src_node = U2, dst_node = I1\<rparr>],
      node_records = [\<lparr>node = I5\<rparr>, \<lparr>node = U3\<rparr>],
      closed = False\<rparr>"

definition demo_drained :: source where
  "demo_drained = \<lparr>edge_records = [], node_records = [], closed = False\<rparr>"

text \<open>A record source whose second node, \<open>X9\<close>, carries neither of the two tags.\<close>

definition demo_unrecognized :: source where
  "demo_unrecognized =
     \<lparr>edge_records = [], node_records = [\<lparr>node = U3\<rparr>, \<lparr>node = X9\<rparr>], closed = False\<rparr>"

definition demo_indexed :: "source reader" where
  "demo_indexed =
     (demo_reader True 32 demo_source)
       \<lparr>user_indexings := [Indexing [U1, U2]], item_indexings := [Indexing [I1]]\<rparr>"

text \<open>
  The same collaborators with a negative sampler that answers, whatever the pool, with the
  node \<open>X9\<close> for every anchor; and a reader whose level-0 user table holds the \<open>2 ^ 31\<close>
  user nodes \<open>0, 1, \<dots>\<close>, the largest table that \<^verbatim>\<open>int\<close> indices allow.
\<close>

definition demo_corpus :: "(source, unit) collaborators" where
  "demo_corpus =
     demo\<lparr>SharedSampleNegative := (\<lambda>k anchors pool. (True, map (\<lambda>_. [X9]) anchors))\<rparr>"

definition demo_huge :: "source reader" where
  "demo_huge =
     (demo_reader False 32 demo_source)
       \<lparr>user_indexings := [Indexing (map of_nat [0..<2 ^ 31])],
        item_indexings := [Indexing [I1]]\<rparr>"

section \<open>Auxiliary facts\<close>

subsection \<open>Classification\<close>

text \<open>The three results of a classification run, as filters of the input.\<close>

lemma ParseUserAndItemFrom_eq:
  "ParseUserAndItemFrom gnt nodes ug ig (us, its, lg) =
     (us @ filter (\<lambda>x. gnt x = ug) nodes,
      its @ filter (\<lambda>x. gnt x \<noteq> ug \<and> gnt x = ig) nodes,
      lg @ map (\<lambda>x. InvalidNode x (ucast (gnt x)) (ucast ug) (ucast ig))
             (filter (\<lambda>x. gnt x \<noteq> ug \<and> gnt x \<noteq> ig) nodes))"
  by (induction nodes arbitrary: us its lg) (simp_all add: Let_def)

subsection \<open>Index tables and the unified index\<close>

lemma position_None: "x \<notin> set xs \<Longrightarrow> position xs x = None"
  by (induction xs) auto

lemma position_Some: "x \<in> set xs \<Longrightarrow> \<exists>i. position xs x = Some i"
  by (induction xs) auto

lemma position_SomeD: "position xs x = Some i \<Longrightarrow> i < length xs \<and> xs ! i = x"
  by (induction xs arbitrary: i) (auto split: if_splits)

lemma sint_of_nat_small: "i < 2 ^ 31 \<Longrightarrow> sint (of_nat i :: 32 word) = int i"
  by (simp add: signed_of_nat signed_take_bit_int_eq_self)

lemma scast_of_nat_small: "i < 2 ^ 31 \<Longrightarrow> (scast (of_nat i :: 32 word) :: 64 word) = of_nat i"
  by (simp add: scast_eq sint_of_nat_small)

lemma Indexing_Get_absent: "x \<notin> set (keys t) \<Longrightarrow> Indexing_Get t x = - 1"
  by (simp add: Indexing_Get_def position_None)

lemma Indexing_Get_position:
  assumes "Indexing_ok t" "position (keys t) x = Some i"
  shows "Indexing_Get t x = of_nat i" "sint (Indexing_Get t x) = int i"
    "(scast (Indexing_Get t x) :: int_t) = of_nat i" "i < length (keys t)" "i < 2 ^ 31"
proof -
  from assms(2) show l: "i < length (keys t)" by (simp add: position_SomeD)
  with assms(1) show b: "i < 2 ^ 31" by (simp add: Indexing_ok_def)
  show g: "Indexing_Get t x = of_nat i" using assms(2) by (simp add: Indexing_Get_def)
  show "sint (Indexing_Get t x) = int i" using b g by (simp add: sint_of_nat_small)
  show "(scast (Indexing_Get t x) :: int_t) = of_nat i" using b g by (simp add: scast_of_nat_small)
qed

lemma index_func_user:
  assumes "user_indexings rd = tu # tus" "GetNodeType C x = user_ns_id rd"
  shows "index_func C rd x =
     (if 0 \<le> sint (Indexing_Get tu x) then Inr (scast (Indexing_Get tu x)) else Inl CheckFailed)"
  using assms by (simp add: index_func_def Let_def)

lemma index_func_item:
  assumes "user_indexings rd = tu # tus" "item_indexings rd = ti # tis"
    "GetNodeType C x \<noteq> user_ns_id rd"
  shows "index_func C rd x =
     (if 0 \<le> sint (Indexing_Get ti x) then Inr (scast (Indexing_Get ti x) + Indexing_Size tu)
      else Inl CheckFailed)"
  using assms by (simp add: index_func_def Let_def)

lemma index_func_Inr_iff:
  assumes "user_indexings rd = tu # tus" "item_indexings rd = ti # tis"
    "Indexing_ok tu" "Indexing_ok ti"
  shows "index_func C rd x = Inr v \<longleftrightarrow>
     (if GetNodeType C x = user_ns_id rd
      then \<exists>i. position (keys tu) x = Some i \<and> v = of_nat i
      else \<exists>j. position (keys ti) x = Some j \<and> v = of_nat (j + length (keys tu)))"
proof (cases "GetNodeType C x = user_ns_id rd")
  case True
  show ?thesis
  proof (cases "position (keys tu) x")
    case None
    then show ?thesis using True assms(1) by (simp add: index_func_user Indexing_Get_def)
  next
    case (Some i)
    from Indexing_Get_position[OF assms(3) Some] show ?thesis
      using True assms(1) Some by (auto simp: index_func_user)
  qed
next
  case False
  show ?thesis
  proof (cases "position (keys ti) x")
    case None
    then show ?thesis using False assms(1,2) by (simp add: index_func_item Indexing_Get_def)
  next
    case (Some j)
    from Indexing_Get_position[OF assms(4) Some] show ?thesis
      using False assms(1,2) Some by (auto simp: index_func_item Indexing_Size_def)
  qed
qed

lemma unat_of_nat64: "n < 2 ^ 33 \<Longrightarrow> unat (of_nat n :: int_t) = n"
  by (simp add: unat_of_nat)

lemma position_inj:
  "position xs x = Some i \<Longrightarrow> position xs y = Some i \<Longrightarrow> x = y"
  using position_SomeD by blast

subsection \<open>Narrowing a 64-bit index to \<^verbatim>\<open>int\<close>\<close>

lemma Index_narrows:
  "Index C rd x = (case index_func C rd x of Inl e \<Rightarrow> Inl e | Inr v \<Rightarrow> Inr (ucast v))"
  by (simp add: Index_def index_func_def Let_def split: list.splits)

lemma uint_narrow: "uint (ucast (v :: int_t) :: cint) = uint v mod 2 ^ 32"
  by (simp add: unsigned_ucast_eq take_bit_eq_mod)

lemma sint_narrow: "sint (ucast (v :: int_t) :: cint) = signed_take_bit 31 (uint v)"
  by (simp add: signed_ucast_eq)

lemma sint_narrow_eq_iff: "sint (ucast (v :: int_t) :: cint) = uint v \<longleftrightarrow> uint v < 2 ^ 31"
proof
  assume "sint (ucast v :: cint) = uint v"
  moreover have "sint (ucast v :: cint) < 2 ^ 31" using sint_lt[of "ucast v :: cint"] by simp
  ultimately show "uint v < 2 ^ 31" by simp
next
  assume "uint v < 2 ^ 31"
  then show "sint (ucast v :: cint) = uint v"
    using signed_take_bit_int_eq_self[of 31 "uint v"] uint_nonnegative[of v]
    by (simp add: sint_narrow)
qed

lemma widen_narrow_eq_iff:
  "(scast (ucast (v :: int_t) :: cint) :: int_t) = v \<longleftrightarrow> - (2 ^ 31) \<le> sint v \<and> sint v < 2 ^ 31"
proof -
  have low: "signed_take_bit 31 (uint v) = signed_take_bit 31 (sint v)"
    by (simp add: sint_uint)
  have "(scast (ucast v :: cint) :: int_t) = v \<longleftrightarrow>
        sint (scast (ucast v :: cint) :: int_t) = sint v"
    by (rule word_eq_iff_signed)
  also have "sint (scast (ucast v :: cint) :: int_t) = sint (ucast v :: cint)"
    by (rule sint_up_scast) (simp add: is_up)
  also have "sint (ucast v :: cint) = signed_take_bit 31 (sint v)"
    using low by (simp add: sint_narrow)
  also have "signed_take_bit 31 (sint v) = sint v \<longleftrightarrow> - (2 ^ 31) \<le> sint v \<and> sint v < 2 ^ 31"
    by (rule signed_take_bit_int_eq_self_iff)
  finally show ?thesis .
qed

lemma FillIndex_loop_Inr:
  "FillIndex_loop C rd nodes rows = Inr rows' \<longleftrightarrow>
     (\<exists>vs. map (index_func C rd) nodes = map Inr vs \<and>
           rows' = rows @ map (\<lambda>v. [(scast (ucast v :: cint), 1)]) vs)"
proof (induction nodes arbitrary: rows)
  case Nil
  then show ?case by auto
next
  case (Cons x nodes)
  show ?case
  proof (cases "index_func C rd x")
    case (Inl e)
    then show ?thesis by (auto simp: Index_narrows map_eq_Cons_conv)
  next
    case (Inr v)
    then show ?thesis by (auto simp: Index_narrows Cons.IH map_eq_Cons_conv Cons_eq_map_conv)
  qed
qed

lemma index_func_not_OutOfRange:
  assumes "user_indexings rd = tu # tus" "item_indexings rd = ti # tis"
  shows "index_func C rd y \<noteq> Inl OutOfRange"
  using assms by (simp add: index_func_def Let_def)

lemma FillIndex_loop_abort:
  assumes u: "user_indexings rd = tu # tus" and i: "item_indexings rd = ti # tis"
    and f: "index_func C rd x = Inl CheckFailed" and m: "x \<in> set nodes"
  shows "FillIndex_loop C rd nodes rows = Inl CheckFailed"
  using m
proof (induction nodes arbitrary: rows)
  case Nil
  then show ?case by simp
next
  case (Cons y nodes)
  show ?case
  proof (cases "index_func C rd y")
    case (Inl e)
    then have "e = CheckFailed"
      using index_func_not_OutOfRange[OF u i, of C y] by (cases e) auto
    with Inl show ?thesis by (simp add: Index_narrows)
  next
    case (Inr v)
    then have "x \<noteq> y" using f by auto
    with Cons.prems have "x \<in> set nodes" by simp
    with Inr Cons.IH show ?thesis by (simp add: Index_narrows)
  qed
qed

subsection \<open>The batch builders\<close>

lemma ParseUserAndItemFrom_append:
  "ParseUserAndItemFrom gnt (xs @ ys) ug ig out =
     ParseUserAndItemFrom gnt ys ug ig (ParseUserAndItemFrom gnt xs ug ig out)"
  by (cases out) (simp add: ParseUserAndItemFrom_eq)

lemma ParseUserAndItemFrom_fold:
  "fold (\<lambda>nodes. ParseUserAndItemFrom gnt nodes ug ig) ls out =
     ParseUserAndItemFrom gnt (concat ls) ug ig out"
  by (induction ls arbitrary: out) (simp_all add: ParseUserAndItemFrom_append)

lemma FillInstance_reader:
  "fst (FillInstance C rd inst enc nodes nn) =
     rd\<lparr>requests := requests rd @ [SubGraphRequest nodes nn]\<rparr>"
  by (simp add: FillInstance_def Let_def split: prod.splits)

lemma FillInstance_tables:
  "snd (snd (FillInstance C rd inst enc nodes nn)) =
     CreateIndexings (fst (SampleSubGraph C nodes nn))"
  by (simp add: FillInstance_def Let_def split: prod.splits)

text \<open>The nodes a training batch classifies, and the two seed lists they give.\<close>

lemma GetTrainBatch_index_Inr:
  assumes run: "GetTrainBatch_index C rd inst values = Inr (rd', inst')"
  defines "D \<equiv> map dst_node values"
  defines "negs \<equiv> snd (SharedSampleNegative C (num_neg rd) D D)"
  defines "seen \<equiv> map src_node values @ D @ concat negs"
  defines "un \<equiv> filter (\<lambda>x. GetNodeType C x = user_ns_id rd) seen"
  defines "it \<equiv> filter (\<lambda>x. GetNodeType C x \<noteq> user_ns_id rd \<and> GetNodeType C x = item_ns_id rd) seen"
  shows "fst (SharedSampleNegative C (num_neg rd) D D)"
    and "rd' = rd\<lparr>src_nodes := map src_node values, dst_nodes := D, neg_nodes_list := negs,
                  requests := requests rd @
                    [NegativeRequest (num_neg rd) D D, SubGraphRequest un (num_neighbors rd),
                     SubGraphRequest it (num_neighbors rd)],
                  error_log := error_log rd @
                    map (\<lambda>x. InvalidNode x (ucast (GetNodeType C x)) (ucast (user_ns_id rd))
                                (ucast (item_ns_id rd)))
                      (filter (\<lambda>x. GetNodeType C x \<noteq> user_ns_id rd \<and>
                                   GetNodeType C x \<noteq> item_ns_id rd) seen),
                  user_indexings := CreateIndexings (fst (SampleSubGraph C un (num_neighbors rd))),
                  item_indexings := CreateIndexings (fst (SampleSubGraph C it (num_neighbors rd)))\<rparr>"
proof -
  obtain ok ns where s: "SharedSampleNegative C (num_neg rd) D D = (ok, ns)"
    by (cases "SharedSampleNegative C (num_neg rd) D D") auto
  have ok: ok using run s
    by (auto simp: GetTrainBatch_index_def D_def Let_def split: prod.splits if_splits)
  then show "fst (SharedSampleNegative C (num_neg rd) D D)" by (simp add: s)
  have ns: "negs = ns" by (simp add: negs_def s)
  have p: "fold (\<lambda>nodes. ParseUserAndItemFrom (GetNodeType C) nodes (user_ns_id rd) (item_ns_id rd)) ns
             (ParseUserAndItemFrom (GetNodeType C) D (user_ns_id rd) (item_ns_id rd)
               (ParseUserAndItemFrom (GetNodeType C) (map src_node values) (user_ns_id rd)
                  (item_ns_id rd) ([], [], error_log rd))) =
           (un, it, error_log rd @
              map (\<lambda>x. InvalidNode x (ucast (GetNodeType C x)) (ucast (user_ns_id rd))
                          (ucast (item_ns_id rd)))
                (filter (\<lambda>x. GetNodeType C x \<noteq> user_ns_id rd \<and>
                             GetNodeType C x \<noteq> item_ns_id rd) seen))"
    unfolding ParseUserAndItemFrom_fold ParseUserAndItemFrom_append[symmetric]
    by (simp add: ParseUserAndItemFrom_eq un_def it_def seen_def ns)
  show "rd' = rd\<lparr>src_nodes := map src_node values, dst_nodes := D, neg_nodes_list := negs,
                  requests := requests rd @
                    [NegativeRequest (num_neg rd) D D, SubGraphRequest un (num_neighbors rd),
                     SubGraphRequest it (num_neighbors rd)],
                  error_log := error_log rd @
                    map (\<lambda>x. InvalidNode x (ucast (GetNodeType C x)) (ucast (user_ns_id rd))
                                (ucast (item_ns_id rd)))
                      (filter (\<lambda>x. GetNodeType C x \<noteq> user_ns_id rd \<and>
                                   GetNodeType C x \<noteq> item_ns_id rd) seen),
                  user_indexings := CreateIndexings (fst (SampleSubGraph C un (num_neighbors rd))),
                  item_indexings := CreateIndexings (fst (SampleSubGraph C it (num_neighbors rd)))\<rparr>"
    using run ok s[unfolded D_def] p[unfolded D_def]
    by (auto simp: GetTrainBatch_index_def Let_def D_def[symmetric] ns
        FillInstance_def CreateIndexings_def split: prod.splits)
qed

lemma GetTrainBatch_index_total:
  assumes "fst (SharedSampleNegative C (num_neg rd) (map dst_node values) (map dst_node values))"
  shows "\<exists>rd' inst'. GetTrainBatch_index C rd inst values = Inr (rd', inst')"
  using assms by (auto simp: GetTrainBatch_index_def Let_def split: prod.splits)

lemma GetTrainBatch_True:
  assumes "GetTrainBatch C rd inst = Inr (True, rd', inst')"
  obtains vals lp inst1 inst2 where
    "NextBatch_EdgeValue C (line_parser rd) (reader_batch rd) = (True, vals, lp)"
    "GetTrainBatch_index C (rd\<lparr>line_parser := lp\<rparr>) inst vals = Inr (rd', inst1)"
    "FillEdgeAndLabel C inst1 (X_SRC_ID_NAME C) (X_DST_ID_NAME C) (Y_NAME C)
       (src_nodes rd') (dst_nodes rd') (neg_nodes_list rd')
       (index_func C rd') (index_func C rd') = Inr inst2"
    "inst' = set_batch inst2 (ucast (of_nat (length (src_nodes rd')) :: size_t))"
  using assms
  by (auto simp: GetTrainBatch_def Let_def split: prod.splits if_splits sum.splits)

lemma GetPredictBatch_True:
  assumes "GetPredictBatch C rd inst = Inr (True, rd', inst')"
  obtains vals lp inst3 where
    "NextBatch_NodeValue C (line_parser rd) (reader_batch rd) = (True, vals, lp)"
    "src_nodes rd' = map node vals"
    "inst' = set_batch
               (inst3\<lparr>vec_int_items :=
                        (vec_int_items inst3)(X_PREDICT_NODE_NAME C \<mapsto> map node vals)\<rparr>)
               (ucast (of_nat (length vals) :: size_t))"
proof -
  obtain ok vals lp where nb: "NextBatch_NodeValue C (line_parser rd) (reader_batch rd) = (ok, vals, lp)"
    by (cases "NextBatch_NodeValue C (line_parser rd) (reader_batch rd)") auto
  have ok: ok using assms nb by (auto simp: GetPredictBatch_def Let_def split: if_splits)
  have nb': "NextBatch_NodeValue C (line_parser rd) (reader_batch rd) = (True, vals, lp)"
    using nb ok by simp
  have "\<exists>inst3. src_nodes rd' = map node vals \<and>
          inst' = set_batch
               (inst3\<lparr>vec_int_items :=
                        (vec_int_items inst3)(X_PREDICT_NODE_NAME C \<mapsto> map node vals)\<rparr>)
               (ucast (of_nat (length vals) :: size_t))"
    using assms nb ok
    by (auto simp: GetPredictBatch_def GetPredictBatch_index_def Let_def FillInstance_def
        split: prod.splits sum.splits)
  then obtain inst3 where "src_nodes rd' = map node vals"
    "inst' = set_batch
               (inst3\<lparr>vec_int_items :=
                        (vec_int_items inst3)(X_PREDICT_NODE_NAME C \<mapsto> map node vals)\<rparr>)
               (ucast (of_nat (length vals) :: size_t))"
    by blast
  with nb' show thesis by (rule that)
qed

lemma narrow_length:
  "n < 2 ^ 31 \<Longrightarrow> sint (ucast (of_nat n :: size_t) :: cint) = int n"
proof -
  assume n: "n < 2 ^ 31"
  then have "uint (of_nat n :: size_t) = int n"
    by (simp add: uint_nat unat_of_nat)
  moreover have "int n < 2 ^ 31" using n by simp
  ultimately show ?thesis using sint_narrow_eq_iff[of "of_nat n :: size_t"] by simp
qed

lemma GetPredictBatch_index_reader:
  "fst (GetPredictBatch_index C rd inst vals) =
     rd\<lparr>src_nodes := map node vals,
        requests := requests rd @
          [SubGraphRequest (filter (\<lambda>x. GetNodeType C x = user_ns_id rd) (map node vals))
             (num_neighbors rd),
           SubGraphRequest
             (filter (\<lambda>x. GetNodeType C x \<noteq> user_ns_id rd \<and> GetNodeType C x = item_ns_id rd)
                (map node vals))
             (num_neighbors rd)],
        error_log := error_log rd @
          map (\<lambda>x. InvalidNode x (ucast (GetNodeType C x)) (ucast (user_ns_id rd))
                      (ucast (item_ns_id rd)))
            (filter (\<lambda>x. GetNodeType C x \<noteq> user_ns_id rd \<and>
                         GetNodeType C x \<noteq> item_ns_id rd) (map node vals)),
        user_indexings :=
          CreateIndexings (fst (SampleSubGraph C
            (filter (\<lambda>x. GetNodeType C x = user_ns_id rd) (map node vals)) (num_neighbors rd))),
        item_indexings :=
          CreateIndexings (fst (SampleSubGraph C
            (filter (\<lambda>x. GetNodeType C x \<noteq> user_ns_id rd \<and> GetNodeType C x = item_ns_id rd)
               (map node vals))
            (num_neighbors rd)))\<rparr>"
  by (simp add: GetPredictBatch_index_def Let_def ParseUserAndItemFrom_eq FillInstance_def
      CreateIndexings_def split: prod.splits)

text \<open>
  In the inference pipeline the two level-0 tables hold seeds taken from the nodes read, so
  their sizes add up to at most the number of records read.
\<close>

lemma GetPredictBatch_index_tables:
  assumes lvl: "level0_is_seeds C"
  shows "\<exists>tu tus ti tis.
           user_indexings (fst (GetPredictBatch_index C rd inst vals)) = tu # tus \<and>
           item_indexings (fst (GetPredictBatch_index C rd inst vals)) = ti # tis \<and>
           distinct (keys tu) \<and> distinct (keys ti) \<and>
           set (keys tu) = {x \<in> set (map node vals). GetNodeType C x = user_ns_id rd} \<and>
           set (keys ti) = {x \<in> set (map node vals).
                              GetNodeType C x \<noteq> user_ns_id rd \<and> GetNodeType C x = item_ns_id rd} \<and>
           length (keys tu) + length (keys ti) \<le> length vals"
proof -
  let ?S = "map node vals"
  let ?un = "filter (\<lambda>x. GetNodeType C x = user_ns_id rd) ?S"
  let ?it = "filter (\<lambda>x. GetNodeType C x \<noteq> user_ns_id rd \<and> GetNodeType C x = item_ns_id rd) ?S"
  obtain lu lus where lu: "fst (SampleSubGraph C ?un (num_neighbors rd)) = lu # lus"
    and du: "distinct lu" and su: "set lu = set ?un"
    using lvl[unfolded level0_is_seeds_def, rule_format, of ?un "num_neighbors rd"]
    by (auto split: list.splits)
  obtain li lis where li: "fst (SampleSubGraph C ?it (num_neighbors rd)) = li # lis"
    and di: "distinct li" and si: "set li = set ?it"
    using lvl[unfolded level0_is_seeds_def, rule_format, of ?it "num_neighbors rd"]
    by (auto split: list.splits)
  have "length lu = card (set ?un)" using distinct_card[OF du] su by simp
  then have a: "length lu \<le> length ?un" using card_length[of ?un] by simp
  have "length li = card (set ?it)" using distinct_card[OF di] si by simp
  then have b: "length li \<le> length ?it" using card_length[of ?it] by simp
  have "length ?un + length ?it \<le> length ?S"
    by (induction vals) auto
  with a b have c: "length lu + length li \<le> length vals" by simp
  have tu: "user_indexings (fst (GetPredictBatch_index C rd inst vals)) = Indexing lu # map Indexing lus"
    and ti: "item_indexings (fst (GetPredictBatch_index C rd inst vals)) = Indexing li # map Indexing lis"
    by (simp_all add: GetPredictBatch_index_reader lu li CreateIndexings_def)
  from tu ti du di su si c show ?thesis by auto
qed

text \<open>
  A consequence for the inference pipeline: a node read whose tag is neither the user tag
  nor the item tag is dropped by the classification and then looked up for the index
  tensor, so the batch aborts.
\<close>

lemma GetPredictBatch_unrecognized_aborts:
  assumes nb: "NextBatch_NodeValue C (line_parser rd) (reader_batch rd) = (True, vals, lp)"
    and lvl: "level0_is_seeds C"
    and x: "x \<in> set (map node vals)"
    and bad: "GetNodeType C x \<noteq> user_ns_id rd" "GetNodeType C x \<noteq> item_ns_id rd"
  shows "GetPredictBatch C rd inst = Inl CheckFailed"
proof -
  let ?rd0 = "rd\<lparr>line_parser := lp\<rparr>"
  obtain rd1 inst2 where ix: "GetPredictBatch_index C ?rd0 inst vals = (rd1, inst2)"
    by (cases "GetPredictBatch_index C ?rd0 inst vals") auto
  from GetPredictBatch_index_tables[OF lvl, of ?rd0 inst vals] ix
  obtain tu tus ti tis where tu: "user_indexings rd1 = tu # tus" and ti: "item_indexings rd1 = ti # tis"
    and si: "set (keys ti) = {x \<in> set (map node vals).
                GetNodeType C x \<noteq> user_ns_id rd \<and> GetNodeType C x = item_ns_id rd}"
    by auto
  have f: "rd1 = fst (GetPredictBatch_index C ?rd0 inst vals)" using ix by simp
  have id: "user_ns_id rd1 = user_ns_id rd" and sr: "src_nodes rd1 = map node vals"
    unfolding f by (simp_all add: GetPredictBatch_index_reader)
  have "x \<notin> set (keys ti)" using bad si by simp
  then have "index_func C rd1 x = Inl CheckFailed"
    using bad(1) by (simp add: index_func_item[OF tu ti] id Indexing_Get_absent)
  from FillIndex_loop_abort[OF tu ti this, of "src_nodes rd1" "[]"] x
  have "FillIndex C rd1 inst2 (X_SRC_ID_NAME C) (src_nodes rd1) = Inl CheckFailed"
    by (simp add: FillIndex_def sr)
  then show ?thesis by (simp add: GetPredictBatch_def nb ix)
qed

text \<open>
  When the sizes of the two level-0 tables add up to at most \<open>2 ^ 31\<close>, as they do in
  the inference pipeline, \<^verbatim>\<open>Index\<close> returns the number that the training-path index
  function returns.
\<close>

lemma Index_exact:
  assumes u: "user_indexings rd = tu # tus" and i: "item_indexings rd = ti # tis"
    and oku: "Indexing_ok tu" and oki: "Indexing_ok ti"
    and small: "length (keys tu) + length (keys ti) \<le> 2 ^ 31"
    and r: "index_func C rd x = Inr v"
  shows "\<exists>w. Index C rd x = Inr w \<and> sint w = uint v"
proof -
  have "\<exists>n. v = of_nat n \<and> n < 2 ^ 31"
  proof (cases "GetNodeType C x = user_ns_id rd")
    case True
    then obtain a where a: "position (keys tu) x = Some a" "v = of_nat a"
      using index_func_Inr_iff[OF u i oku oki, of C x v] r by auto
    have "a < length (keys tu)" using a(1) position_SomeD by blast
    with small a(2) show ?thesis by (intro exI[of _ a]) simp
  next
    case False
    then obtain b where b: "position (keys ti) x = Some b" "v = of_nat (b + length (keys tu))"
      using index_func_Inr_iff[OF u i oku oki, of C x v] r by auto
    have "b < length (keys ti)" using b(1) position_SomeD by blast
    with small b(2) show ?thesis by (intro exI[of _ "b + length (keys tu)"]) simp
  qed
  then obtain n where n: "v = of_nat n" "n < 2 ^ 31" by blast
  then have "uint v = int n" by (simp add: uint_nat unat_of_nat)
  with n(2) have "uint v < 2 ^ 31" by simp
  then have "sint (ucast v :: cint) = uint v" by (simp add: sint_narrow_eq_iff)
  with r show ?thesis by (simp add: Index_narrows)
qed

text \<open>
  What \<^verbatim>\<open>FillIndex\<close> writes: under \<open>name\<close>, one row per node, whose column is the
  value of the training-path index function narrowed to \<^verbatim>\<open>int\<close> and widened again. In a
  built inference batch this is the entry \<^verbatim>\<open>X_SRC_ID_NAME\<close> of the instance.
\<close>

lemma FillIndex_Inr:
  "(FillIndex C rd inst name nodes = Inr inst') =
     (\<exists>vs. map (index_func C rd) nodes = map Inr vs \<and>
           inst' = inst\<lparr>csr_items :=
                          (csr_items inst)(name \<mapsto> map (\<lambda>v. [(scast (ucast v :: cint), 1)]) vs)\<rparr>)"
proof (cases "FillIndex_loop C rd nodes []")
  case (Inl e)
  then have "\<not> (\<exists>vs. map (index_func C rd) nodes = map Inr vs)"
    using FillIndex_loop_Inr[of C rd nodes "[]"] by auto
  with Inl show ?thesis by (simp add: FillIndex_def)
next
  case (Inr rows)
  then obtain vs where vs: "map (index_func C rd) nodes = map Inr vs"
    "rows = map (\<lambda>v. [(scast (ucast v :: cint), 1)]) vs"
    using FillIndex_loop_Inr[of C rd nodes "[]" rows] by auto
  have u: "ws = vs" if "map (index_func C rd) nodes = map Inr ws" for ws
    using that vs(1) by (simp add: inj_map_eq_map[OF inj_Inr])
  have l: "FillIndex C rd inst name nodes =
             Inr (inst\<lparr>csr_items := (csr_items inst)(name \<mapsto> rows)\<rparr>)"
    using Inr by (simp add: FillIndex_def)
  show ?thesis
  proof
    assume "FillIndex C rd inst name nodes = Inr inst'"
    with l have "inst' = inst\<lparr>csr_items := (csr_items inst)(name \<mapsto> rows)\<rparr>" by simp
    with vs show "\<exists>vs. map (index_func C rd) nodes = map Inr vs \<and>
           inst' = inst\<lparr>csr_items :=
                          (csr_items inst)(name \<mapsto> map (\<lambda>v. [(scast (ucast v :: cint), 1)]) vs)\<rparr>"
      by blast
  next
    assume "\<exists>vs. map (index_func C rd) nodes = map Inr vs \<and>
           inst' = inst\<lparr>csr_items :=
                          (csr_items inst)(name \<mapsto> map (\<lambda>v. [(scast (ucast v :: cint), 1)]) vs)\<rparr>"
    then obtain ws where w: "map (index_func C rd) nodes = map Inr ws"
      "inst' = inst\<lparr>csr_items :=
                          (csr_items inst)(name \<mapsto> map (\<lambda>v. [(scast (ucast v :: cint), 1)]) ws)\<rparr>"
      by blast
    from u[OF w(1)] w(2) vs(2) l show "FillIndex C rd inst name nodes = Inr inst'" by simp
  qed
qed

lemma GetPredictBatch_tensor:
  assumes run: "GetPredictBatch C rd inst = Inr (True, rd', inst')"
  shows "\<exists>vs. map (index_func C rd') (src_nodes rd') = map Inr vs \<and>
              csr_items inst' (X_SRC_ID_NAME C) =
                Some (map (\<lambda>v. [(scast (ucast v :: cint), 1)]) vs)"
proof -
  obtain ok vals lp where nb: "NextBatch_NodeValue C (line_parser rd) (reader_batch rd) = (ok, vals, lp)"
    by (cases "NextBatch_NodeValue C (line_parser rd) (reader_batch rd)") auto
  obtain rd1 inst2 where ix: "GetPredictBatch_index C (rd\<lparr>line_parser := lp\<rparr>) inst vals = (rd1, inst2)"
    by (cases "GetPredictBatch_index C (rd\<lparr>line_parser := lp\<rparr>) inst vals") auto
  have ok: ok
  proof (rule ccontr)
    assume "\<not> ok"
    then show False using run nb by (simp add: GetPredictBatch_def)
  qed
  have g: "GetPredictBatch C rd inst =
             (case FillIndex C rd1 inst2 (X_SRC_ID_NAME C) (src_nodes rd1) of
                Inl e \<Rightarrow> Inl e
              | Inr inst3 \<Rightarrow>
                  Inr (True, rd1,
                       set_batch
                         (inst3\<lparr>vec_int_items :=
                                   (vec_int_items inst3)(X_PREDICT_NODE_NAME C \<mapsto> src_nodes rd1)\<rparr>)
                         (ucast (of_nat (length (src_nodes rd1)) :: size_t))))"
    using nb ix ok by (simp add: GetPredictBatch_def)
  show ?thesis
  proof (cases "FillIndex C rd1 inst2 (X_SRC_ID_NAME C) (src_nodes rd1)")
    case (Inl e)
    with g run show ?thesis by simp
  next
    case (Inr inst3)
    with g run have r: "rd' = rd1"
      and i: "inst' = set_batch
               (inst3\<lparr>vec_int_items :=
                        (vec_int_items inst3)(X_PREDICT_NODE_NAME C \<mapsto> src_nodes rd1)\<rparr>)
               (ucast (of_nat (length (src_nodes rd1)) :: size_t))"
      by simp_all
    from Inr obtain vs where v: "map (index_func C rd1) (src_nodes rd1) = map Inr vs"
      and w: "inst3 = inst2\<lparr>csr_items :=
               (csr_items inst2)(X_SRC_ID_NAME C \<mapsto> map (\<lambda>v. [(scast (ucast v :: cint), 1)]) vs)\<rparr>"
      unfolding FillIndex_Inr by blast
    have "csr_items inst' (X_SRC_ID_NAME C) = Some (map (\<lambda>v. [(scast (ucast v :: cint), 1)]) vs)"
      unfolding i w by (simp add: set_batch_def)
    with v r show ?thesis by blast
  qed
qed

subsection \<open>The instance at work\<close>

lemma demo_tags:
  "demo_GetNodeType U1 = 0" "demo_GetNodeType U2 = 0" "demo_GetNodeType U3 = 0"
  "demo_GetNodeType I1 = 1" "demo_GetNodeType I5 = 1" "demo_GetNodeType X9 = 7"
  by (simp_all add: demo_GetNodeType_def U1_def U2_def U3_def I1_def I5_def X9_def)

lemma demo_nodes_distinct:
  "U1 \<noteq> U2" "U1 \<noteq> I1" "U2 \<noteq> I1" "U1 \<noteq> X9" "U2 \<noteq> X9" "I1 \<noteq> X9" "U3 \<noteq> I5"
  "U3 \<noteq> U1" "U3 \<noteq> U2" "U3 \<noteq> I1"
  by (simp_all add: U1_def U2_def U3_def I1_def I5_def X9_def)

lemma demo_predict_run:
  "GetPredictBatch demo (demo_reader False 32 demo_source) empty_instance =
     Inr (True,
          (demo_reader False 32 (demo_source\<lparr>node_records := []\<rparr>))
            \<lparr>src_nodes := [I5, U3],
             user_indexings := [Indexing [U3]], item_indexings := [Indexing [I5]],
             requests := [SubGraphRequest [U3] [], SubGraphRequest [I5] []]\<rparr>,
          empty_instance
            \<lparr>batch := 2,
             csr_items := [''X_src_id'' \<mapsto> [[(1, 1)], [(0, 1)]]],
             vec_int_items := [''X_predict_node'' \<mapsto> [I5, U3]]\<rparr>)"
  by (simp add: GetPredictBatch_def GetPredictBatch_index_def demo_def demo_reader_def demo_source_def
      demo_NextBatch_NodeValue_def Let_def FillInstance_def demo_SampleSubGraph_def
      CreateIndexings_def FillIndex_def Index_def Indexing_Get_def Indexing_Size_def
      demo_tags demo_nodes_distinct empty_instance_def set_batch_def
      USER_ENCODER_NAME_def ITEM_ENCODER_NAME_def)

lemma demo_train_run:
  "GetTrainBatch demo (demo_reader True 32 demo_source) empty_instance =
     Inr (True,
          (demo_reader True 32 (demo_source\<lparr>edge_records := []\<rparr>))
            \<lparr>src_nodes := [U1, U2], dst_nodes := [I1, I1], neg_nodes_list := [[I1], [I1]],
             user_indexings := [Indexing [U1, U2]], item_indexings := [Indexing [I1]],
             requests := [NegativeRequest 1 [I1, I1] [I1, I1], SubGraphRequest [U1, U2] [],
                          SubGraphRequest [I1, I1, I1, I1] []]\<rparr>,
          empty_instance
            \<lparr>batch := 2,
             csr_items := [''X_src_id'' \<mapsto> [[(0, 1)], [(1, 1)]],
                           ''X_dst_id'' \<mapsto> [[(2, 1)], [(2, 1)], [(2, 1)], [(2, 1)]]]\<rparr>)"
  by (simp add: GetTrainBatch_def GetTrainBatch_index_def demo_def demo_reader_def demo_source_def
      demo_NextBatch_EdgeValue_def demo_SharedSampleNegative_def Let_def FillInstance_def
      demo_SampleSubGraph_def demo_FillEdgeAndLabel_def
      CreateIndexings_def index_func_def Indexing_Get_def Indexing_Size_def
      demo_tags demo_nodes_distinct empty_instance_def set_batch_def
      USER_ENCODER_NAME_def ITEM_ENCODER_NAME_def)

lemma demo_contracts: "draws_from_pool demo" "level0_is_seeds demo"
  by (auto simp: draws_from_pool_def level0_is_seeds_def demo_def demo_SharedSampleNegative_def
      demo_SampleSubGraph_def split: list.splits)

lemma demo_corpus_index_run:
  "GetTrainBatch_index demo_corpus (demo_reader True 32 demo_source) empty_instance
     [\<lparr>src_node = U1, dst_node = I1\<rparr>, \<lparr>src_node = U2, dst_node = I1\<rparr>] =
     Inr ((demo_reader True 32 demo_source)
            \<lparr>src_nodes := [U1, U2], dst_nodes := [I1, I1], neg_nodes_list := [[X9], [X9]],
             user_indexings := [Indexing [U1, U2]], item_indexings := [Indexing [I1]],
             error_log := [InvalidNode X9 7 0 1, InvalidNode X9 7 0 1],
             requests := [NegativeRequest 1 [I1, I1] [I1, I1], SubGraphRequest [U1, U2] [],
                          SubGraphRequest [I1, I1] []]\<rparr>,
          empty_instance)"
  by (simp add: GetTrainBatch_index_def demo_corpus_def demo_def demo_reader_def demo_source_def
      Let_def FillInstance_def demo_SampleSubGraph_def CreateIndexings_def
      demo_tags demo_nodes_distinct empty_instance_def
      USER_ENCODER_NAME_def ITEM_ENCODER_NAME_def)

text \<open>
  With the edge fill of this instance, which resolves the negatives as well, the training
  batch of the two edges aborts when the sampler answers with \<open>X9\<close>.
\<close>

lemma demo_corpus_train_aborts:
  "GetTrainBatch demo_corpus (demo_reader True 32 demo_source) empty_instance = Inl CheckFailed"
proof -
  have nb: "NextBatch_EdgeValue demo_corpus (line_parser (demo_reader True 32 demo_source))
              (reader_batch (demo_reader True 32 demo_source)) =
            (True, [\<lparr>src_node = U1, dst_node = I1\<rparr>, \<lparr>src_node = U2, dst_node = I1\<rparr>],
             demo_source\<lparr>edge_records := []\<rparr>)"
    by (simp add: demo_corpus_def demo_def demo_reader_def demo_source_def demo_NextBatch_EdgeValue_def)
  have same: "(demo_reader True 32 demo_source)\<lparr>line_parser := demo_source\<lparr>edge_records := []\<rparr>\<rparr> =
              demo_reader True 32 (demo_source\<lparr>edge_records := []\<rparr>)"
    by (simp add: demo_reader_def)
  have run: "GetTrainBatch_index demo_corpus (demo_reader True 32 (demo_source\<lparr>edge_records := []\<rparr>))
               empty_instance [\<lparr>src_node = U1, dst_node = I1\<rparr>, \<lparr>src_node = U2, dst_node = I1\<rparr>] =
     Inr ((demo_reader True 32 (demo_source\<lparr>edge_records := []\<rparr>))
            \<lparr>src_nodes := [U1, U2], dst_nodes := [I1, I1], neg_nodes_list := [[X9], [X9]],
             user_indexings := [Indexing [U1, U2]], item_indexings := [Indexing [I1]],
             error_log := [InvalidNode X9 7 0 1, InvalidNode X9 7 0 1],
             requests := [NegativeRequest 1 [I1, I1] [I1, I1], SubGraphRequest [U1, U2] [],
                          SubGraphRequest [I1, I1] []]\<rparr>,
          empty_instance)"
    by (simp add: GetTrainBatch_index_def demo_corpus_def demo_def demo_reader_def demo_source_def
      Let_def FillInstance_def demo_SampleSubGraph_def CreateIndexings_def
      demo_tags demo_nodes_distinct empty_instance_def
      USER_ENCODER_NAME_def ITEM_ENCODER_NAME_def)
  show ?thesis
    unfolding GetTrainBatch_def nb Let_def prod.case same run
    by (simp add: demo_corpus_def demo_def demo_reader_def demo_FillEdgeAndLabel_def index_func_def
        Indexing_Get_def Indexing_Size_def demo_tags demo_nodes_distinct)
qed

text \<open>
  The inference batch of the nodes \<open>U3\<close> and \<open>X9\<close> aborts: \<open>X9\<close> is dropped by the
  classification and then looked up for the index tensor.
\<close>

lemma demo_unrecognized_run:
  "GetPredictBatch demo (demo_reader False 32 demo_unrecognized) empty_instance = Inl CheckFailed"
proof -
  let ?rd = "demo_reader False 32 demo_unrecognized"
  have nb: "NextBatch_NodeValue demo (line_parser ?rd) (reader_batch ?rd) =
              (True, [\<lparr>node = U3\<rparr>, \<lparr>node = X9\<rparr>], demo_unrecognized\<lparr>node_records := []\<rparr>)"
    by (simp add: demo_def demo_reader_def demo_unrecognized_def demo_NextBatch_NodeValue_def)
  have x: "X9 \<in> set (map node [\<lparr>node = U3\<rparr>, \<lparr>node = X9\<rparr>])" by simp
  have bad: "GetNodeType demo X9 \<noteq> user_ns_id ?rd" "GetNodeType demo X9 \<noteq> item_ns_id ?rd"
    by (simp_all add: demo_def demo_reader_def demo_tags)
  show ?thesis
    by (rule GetPredictBatch_unrecognized_aborts[OF nb demo_contracts(2) x bad])
qed

section \<open>The claims\<close>

text \<open>
  Claim C1. A node whose tag is the user tag resolves to its index in the level-0 user
  table, unchanged; any other node resolves to its index in the level-0 item table plus
  the size of the user table. For level-0 tables of sizes \<open>U\<close> and \<open>I\<close>, an indexed user
  node resolves into \<open>[0, U)\<close>, an indexed item node into \<open>[U, U + I)\<close>, and two nodes
  that resolve to the same flat index are the same node. \<^verbatim>\<open>Index\<close>, the helper of
  the inference path, returns the same number as long as \<open>U + I\<close> is at most \<open>2 ^ 31\<close>
  (claim C10 is about the rest).
\<close>

theorem C1_unified_index:
  assumes u: "user_indexings rd = tu # tus" and i: "item_indexings rd = ti # tis"
    and oku: "Indexing_ok tu" and oki: "Indexing_ok ti"
  shows "(GetNodeType C x = user_ns_id rd \<and> x \<in> set (keys tu) \<longrightarrow>
            index_func C rd x = Inr (scast (Indexing_Get tu x)) \<and>
            unat (scast (Indexing_Get tu x) :: int_t) < length (keys tu)) \<and>
         (GetNodeType C x \<noteq> user_ns_id rd \<and> x \<in> set (keys ti) \<longrightarrow>
            index_func C rd x = Inr (scast (Indexing_Get ti x) + Indexing_Size tu) \<and>
            length (keys tu) \<le> unat (scast (Indexing_Get ti x) + Indexing_Size tu) \<and>
            unat (scast (Indexing_Get ti x) + Indexing_Size tu) <
              length (keys tu) + length (keys ti)) \<and>
         (index_func C rd x = Inr v \<and> index_func C rd y = Inr v \<longrightarrow> x = y) \<and>
         (length (keys tu) + length (keys ti) \<le> 2 ^ 31 \<and> index_func C rd x = Inr v \<longrightarrow>
            (\<exists>w. Index C rd x = Inr w \<and> sint w = uint v))"
proof -
  have lu: "length (keys tu) \<le> 2 ^ 31" and li: "length (keys ti) \<le> 2 ^ 31"
    using oku oki by (simp_all add: Indexing_ok_def)
  have user: "index_func C rd x = Inr (scast (Indexing_Get tu x)) \<and>
              unat (scast (Indexing_Get tu x) :: int_t) < length (keys tu)"
    if t: "GetNodeType C x = user_ns_id rd" and m: "x \<in> set (keys tu)"
  proof -
    obtain k where k: "position (keys tu) x = Some k" using m position_Some by blast
    note g = Indexing_Get_position[OF oku k]
    have "unat (of_nat k :: int_t) = k" using g(5) by (simp add: unat_of_nat64)
    then show ?thesis using g t u by (simp add: index_func_user)
  qed
  have item: "index_func C rd x = Inr (scast (Indexing_Get ti x) + Indexing_Size tu) \<and>
              length (keys tu) \<le> unat (scast (Indexing_Get ti x) + Indexing_Size tu) \<and>
              unat (scast (Indexing_Get ti x) + Indexing_Size tu) <
                length (keys tu) + length (keys ti)"
    if t: "GetNodeType C x \<noteq> user_ns_id rd" and m: "x \<in> set (keys ti)"
  proof -
    obtain k where k: "position (keys ti) x = Some k" using m position_Some by blast
    note g = Indexing_Get_position[OF oki k]
    have s: "(scast (Indexing_Get ti x) :: int_t) + Indexing_Size tu = of_nat (k + length (keys tu))"
      using g(3) by (simp add: Indexing_Size_def)
    have "k + length (keys tu) < 2 ^ 33" using g(5) lu by simp
    then have "unat (of_nat (k + length (keys tu)) :: int_t) = k + length (keys tu)"
      by (rule unat_of_nat64)
    then show ?thesis using g t u i s by (simp add: index_func_item)
  qed
  have inj: "x = y" if rx: "index_func C rd x = Inr v" and ry: "index_func C rd y = Inr v"
  proof -
    note ex = index_func_Inr_iff[OF u i oku oki, of C x v, THEN iffD1, OF rx]
    note ey = index_func_Inr_iff[OF u i oku oki, of C y v, THEN iffD1, OF ry]
    have val: "unat v = n" if "v = (of_nat n :: int_t)" "n < 2 ^ 33" for n
      using that by (simp add: unat_of_nat64)
    show ?thesis
    proof (cases "GetNodeType C x = user_ns_id rd")
      case tx: True
      then obtain a where a: "position (keys tu) x = Some a" "v = of_nat a" using ex by auto
      have al: "a < length (keys tu)" using a(1) position_SomeD by blast
      then have va: "unat v = a" using a(2) lu by (intro val) auto
      show ?thesis
      proof (cases "GetNodeType C y = user_ns_id rd")
        case True
        then obtain b where b: "position (keys tu) y = Some b" "v = of_nat b" using ey by auto
        have "b < length (keys tu)" using b(1) position_SomeD by blast
        then have "unat v = b" using b(2) lu by (intro val) auto
        with va a(1) b(1) show ?thesis using position_inj by blast
      next
        case False
        then obtain b where b: "position (keys ti) y = Some b" "v = of_nat (b + length (keys tu))"
          using ey by auto
        have "b < length (keys ti)" using b(1) position_SomeD by blast
        then have "unat v = b + length (keys tu)" using b(2) lu li by (intro val) auto
        with va al show ?thesis by simp
      qed
    next
      case fx: False
      then obtain a where a: "position (keys ti) x = Some a" "v = of_nat (a + length (keys tu))"
        using ex by auto
      have "a < length (keys ti)" using a(1) position_SomeD by blast
      then have va: "unat v = a + length (keys tu)" using a(2) lu li by (intro val) auto
      show ?thesis
      proof (cases "GetNodeType C y = user_ns_id rd")
        case True
        then obtain b where b: "position (keys tu) y = Some b" "v = of_nat b" using ey by auto
        have bl: "b < length (keys tu)" using b(1) position_SomeD by blast
        then have "unat v = b" using b(2) lu by (intro val) auto
        with va bl show ?thesis by simp
      next
        case False
        then obtain b where b: "position (keys ti) y = Some b" "v = of_nat (b + length (keys tu))"
          using ey by auto
        have "b < length (keys ti)" using b(1) position_SomeD by blast
        then have "unat v = b + length (keys tu)" using b(2) lu li by (intro val) auto
        with va a(1) b(1) show ?thesis using position_inj by force
      qed
    qed
  qed
  have narrow: "\<exists>w. Index C rd x = Inr w \<and> sint w = uint v"
    if "length (keys tu) + length (keys ti) \<le> 2 ^ 31" "index_func C rd x = Inr v"
    using that by (rule Index_exact[OF u i oku oki])
  from user item inj narrow show ?thesis by blast
qed

theorem C1_unified_index_witness:
  "index_func demo demo_indexed U2 = Inr 1 \<and> index_func demo demo_indexed I1 = Inr 2 \<and>
   Index demo demo_indexed I1 = Inr 2 \<and>
   unat (1 :: int_t) < length [U1, U2] \<and>
   length [U1, U2] \<le> unat (2 :: int_t) \<and> unat (2 :: int_t) < length [U1, U2] + length [I1]"
proof -
  have u: "user_indexings demo_indexed = Indexing [U1, U2] # []"
    and i: "item_indexings demo_indexed = Indexing [I1] # []"
    by (simp_all add: demo_indexed_def demo_reader_def)
  have oku: "Indexing_ok (Indexing [U1, U2])" and oki: "Indexing_ok (Indexing [I1])"
    by (simp_all add: Indexing_ok_def demo_nodes_distinct)
  have id: "user_ns_id demo_indexed = 0" "GetNodeType demo = demo_GetNodeType"
    by (simp_all add: demo_indexed_def demo_reader_def demo_def)
  have gu: "(scast (Indexing_Get (Indexing [U1, U2]) U2) :: int_t) = 1"
    using demo_nodes_distinct by (simp add: Indexing_Get_def)
  have gi: "(scast (Indexing_Get (Indexing [I1]) I1) :: int_t) + Indexing_Size (Indexing [U1, U2]) = 2"
    by (simp add: Indexing_Get_def Indexing_Size_def)
  from C1_unified_index[OF u i oku oki, of demo U2 1 U2]
    C1_unified_index[OF u i oku oki, of demo I1 2 I1]
  show ?thesis unfolding gu gi by (auto simp: id demo_tags Index_narrows)
qed

text \<open>
  Claim C2. When every node of the input carries the user tag or the item tag,
  classification appends each node to exactly one of the two outputs: the user output
  grows by the user-tagged nodes and the item output by the others, each in input order,
  the two lengths grow by the length of the input together, and nothing is reported.
\<close>

theorem C2_partition_complete:
  assumes tags: "\<forall>x \<in> set nodes. gnt x = user_group \<or> gnt x = item_group"
    and run: "ParseUserAndItemFrom gnt nodes user_group item_group (user_nodes, item_nodes, lg) =
                (user_nodes', item_nodes', lg')"
  shows "user_nodes' = user_nodes @ filter (\<lambda>x. gnt x = user_group) nodes \<and>
         item_nodes' = item_nodes @ filter (\<lambda>x. gnt x \<noteq> user_group) nodes \<and>
         length user_nodes' + length item_nodes' =
           length user_nodes + length item_nodes + length nodes \<and>
         lg' = lg"
proof -
  have i: "filter (\<lambda>x. gnt x \<noteq> user_group \<and> gnt x = item_group) nodes =
           filter (\<lambda>x. gnt x \<noteq> user_group) nodes"
    using tags by (intro filter_cong) auto
  have n: "filter (\<lambda>x. gnt x \<noteq> user_group \<and> gnt x \<noteq> item_group) nodes = []"
    using tags by (auto simp: filter_empty_conv)
  have u: "user_nodes' = user_nodes @ filter (\<lambda>x. gnt x = user_group) nodes"
    and t: "item_nodes' = item_nodes @ filter (\<lambda>x. gnt x \<noteq> user_group) nodes"
    and l: "lg' = lg"
    using run i n by (simp_all add: ParseUserAndItemFrom_eq)
  have "length (filter (\<lambda>x. gnt x = user_group) nodes) +
        length (filter (\<lambda>x. gnt x \<noteq> user_group) nodes) = length nodes"
    by (rule sum_length_filter_compl)
  with u t l show ?thesis by simp
qed

theorem C2_partition_complete_witness:
  "ParseUserAndItemFrom demo_GetNodeType [I1, U1, I5, U2] 0 1 ([U3], [], []) =
     ([U3, U1, U2], [I1, I5], []) \<and>
   [U3, U1, U2] = [U3] @ filter (\<lambda>x. demo_GetNodeType x = 0) [I1, U1, I5, U2] \<and>
   [I1, I5] = [] @ filter (\<lambda>x. demo_GetNodeType x \<noteq> 0) [I1, U1, I5, U2] \<and>
   length [U3, U1, U2] + length [I1, I5] = length [U3] + length ([] :: int_t list) + length [I1, U1, I5, U2]"
proof -
  have tags: "\<forall>x \<in> set [I1, U1, I5, U2]. demo_GetNodeType x = 0 \<or> demo_GetNodeType x = 1"
    by (simp add: demo_tags)
  have run: "ParseUserAndItemFrom demo_GetNodeType [I1, U1, I5, U2] 0 1 ([U3], [], []) =
               ([U3, U1, U2], [I1, I5], [])"
    by (simp add: demo_tags)
  from C2_partition_complete[OF tags run] run show ?thesis by simp
qed

text \<open>
  Claim C3, amended. A node whose tag is neither the user tag nor the item tag is
  reported, with its tag and the two expected tags, is appended to neither output, and the
  nodes after it are classified as usual: the classification step always returns. The
  claim as stated adds that the batch is not aborted; that fails, since the node stays
  among the nodes read and the later lookup of its index aborts the batch, as the
  counterexample after the witness shows on the inference batch of \<open>U3\<close> and \<open>X9\<close>.
\<close>

theorem C3_invalid_node_dropped:
  assumes "gnt x \<noteq> user_group" "gnt x \<noteq> item_group"
  shows "ParseUserAndItemFrom gnt (pre @ x # post) user_group item_group out =
           (case ParseUserAndItemFrom gnt pre user_group item_group out of
              (user_nodes, item_nodes, lg) \<Rightarrow>
                ParseUserAndItemFrom gnt post user_group item_group
                  (user_nodes, item_nodes,
                   lg @ [InvalidNode x (ucast (gnt x)) (ucast user_group) (ucast item_group)])) \<and>
         (case ParseUserAndItemFrom gnt (pre @ x # post) user_group item_group ([], [], []) of
            (user_nodes, item_nodes, lg) \<Rightarrow>
              x \<notin> set user_nodes \<and> x \<notin> set item_nodes \<and>
              InvalidNode x (ucast (gnt x)) (ucast user_group) (ucast item_group) \<in> set lg \<and>
              user_nodes = filter (\<lambda>y. gnt y = user_group) (pre @ post) \<and>
              item_nodes = filter (\<lambda>y. gnt y \<noteq> user_group \<and> gnt y = item_group) (pre @ post))"
proof -
  obtain us its lg where out: "out = (us, its, lg)" by (cases out) auto
  show ?thesis using assms unfolding out by (simp add: ParseUserAndItemFrom_eq)
qed

theorem C3_invalid_node_dropped_witness:
  "ParseUserAndItemFrom demo_GetNodeType ([U1] @ X9 # [I1, U2]) 0 1 ([], [], []) =
     ([U1, U2], [I1], [InvalidNode X9 7 0 1])"
proof -
  have bad: "demo_GetNodeType X9 \<noteq> 0" "demo_GetNodeType X9 \<noteq> 1"
    by (simp_all add: demo_tags)
  from C3_invalid_node_dropped[of demo_GetNodeType X9 0 1 "[U1]" "[I1, U2]" "([], [], [])", OF bad]
  show ?thesis by (simp add: demo_tags)
qed

theorem C3_batch_aborts_counterexample:
  "ParseUserAndItemFrom demo_GetNodeType [U3, X9] 0 1 ([], [], []) =
     ([U3], [], [InvalidNode X9 7 0 1]) \<and>
   GetPredictBatch demo (demo_reader False 32 demo_unrecognized) empty_instance = Inl CheckFailed"
  using demo_unrecognized_run by (simp add: demo_tags)

text \<open>
  Claim C4. When a node is absent from the level-0 table consulted for it (the user table
  for a user-tagged node, the item table otherwise), the lookup yields a negative index
  and the check on it aborts: neither index function produces a flat index for the node,
  and filling the index tensor over nodes that include it aborts as well.
\<close>

theorem C4_lookup_miss_aborts:
  assumes u: "user_indexings rd = tu # tus" and i: "item_indexings rd = ti # tis"
    and miss: "x \<notin> set (keys (if GetNodeType C x = user_ns_id rd then tu else ti))"
  shows "sint (Indexing_Get (if GetNodeType C x = user_ns_id rd then tu else ti) x) < 0 \<and>
         index_func C rd x = Inl CheckFailed \<and>
         Index C rd x = Inl CheckFailed \<and>
         (\<forall>v. index_func C rd x \<noteq> Inr v) \<and>
         (x \<in> set nodes \<longrightarrow> FillIndex C rd inst name nodes = Inl CheckFailed)"
proof -
  have g: "Indexing_Get (if GetNodeType C x = user_ns_id rd then tu else ti) x = - 1"
    using miss by (rule Indexing_Get_absent)
  have f: "index_func C rd x = Inl CheckFailed"
  proof (cases "GetNodeType C x = user_ns_id rd")
    case True
    with g u show ?thesis by (simp add: index_func_user)
  next
    case False
    with g u i show ?thesis by (simp add: index_func_item)
  qed
  have "FillIndex C rd inst name nodes = Inl CheckFailed" if "x \<in> set nodes"
    using FillIndex_loop_abort[OF u i f that] by (simp add: FillIndex_def)
  with g f show ?thesis by (simp add: Index_narrows)
qed

theorem C4_lookup_miss_aborts_witness:
  "sint (Indexing_Get (Indexing [U1, U2]) U3) < 0 \<and>
   index_func demo demo_indexed U3 = Inl CheckFailed \<and>
   Index demo demo_indexed U3 = Inl CheckFailed \<and>
   FillIndex demo demo_indexed empty_instance ''X_src_id'' [U1, U3, I1] = Inl CheckFailed"
proof -
  have u: "user_indexings demo_indexed = Indexing [U1, U2] # []"
    and i: "item_indexings demo_indexed = Indexing [I1] # []"
    by (simp_all add: demo_indexed_def demo_reader_def)
  have t: "GetNodeType demo U3 = user_ns_id demo_indexed"
    by (simp add: demo_indexed_def demo_reader_def demo_def demo_tags)
  have miss: "U3 \<notin> set (keys (if GetNodeType demo U3 = user_ns_id demo_indexed
                                then Indexing [U1, U2] else Indexing [I1]))"
    using demo_nodes_distinct by (simp add: t)
  have m: "U3 \<in> set [U1, U3, I1]" by simp
  from C4_lookup_miss_aborts[OF u i miss, of "[U1, U3, I1]" empty_instance "''X_src_id''"] m
  show ?thesis by (simp add: t)
qed

text \<open>
  Claim C5. In every training batch that is built, the one negative-sampling request sent
  carries \<^verbatim>\<open>num_neg_\<close> as its count and the destination nodes of the batch both as the
  anchors and as the third argument, and the negatives kept are the answer to that request.
  With a sampler that draws from the pool it is given, as the spec's interface has it,
  every negative is a destination node of the batch.
\<close>

theorem C5_negatives_from_destinations:
  assumes run: "GetTrainBatch C rd inst = Inr (True, rd', inst')"
  shows "dst_nodes rd' =
           map dst_node (fst (snd (NextBatch_EdgeValue C (line_parser rd) (reader_batch rd)))) \<and>
         SharedSampleNegative C (num_neg rd) (dst_nodes rd') (dst_nodes rd') =
           (True, neg_nodes_list rd') \<and>
         (\<exists>user_nodes item_nodes.
            requests rd' = requests rd @
              [NegativeRequest (num_neg rd) (dst_nodes rd') (dst_nodes rd'),
               SubGraphRequest user_nodes (num_neighbors rd),
               SubGraphRequest item_nodes (num_neighbors rd)]) \<and>
         (draws_from_pool C \<longrightarrow>
            (\<forall>neg_nodes \<in> set (neg_nodes_list rd'). set neg_nodes \<subseteq> set (dst_nodes rd')))"
proof -
  from run obtain vals lp inst1 inst2 where
    nb: "NextBatch_EdgeValue C (line_parser rd) (reader_batch rd) = (True, vals, lp)"
    and ix: "GetTrainBatch_index C (rd\<lparr>line_parser := lp\<rparr>) inst vals = Inr (rd', inst1)"
    by (rule GetTrainBatch_True)
  note ok = GetTrainBatch_index_Inr(1)[OF ix] and r = GetTrainBatch_index_Inr(2)[OF ix]
  have d: "dst_nodes rd' = map dst_node vals" and n: "num_neg (rd\<lparr>line_parser := lp\<rparr>) = num_neg rd"
    by (simp_all add: r)
  have g: "neg_nodes_list rd' =
             snd (SharedSampleNegative C (num_neg rd) (map dst_node vals) (map dst_node vals))"
    by (simp add: r)
  have s: "SharedSampleNegative C (num_neg rd) (dst_nodes rd') (dst_nodes rd') =
             (True, neg_nodes_list rd')"
    using ok unfolding d g n
    by (cases "SharedSampleNegative C (num_neg rd) (map dst_node vals) (map dst_node vals)") simp
  have q: "\<exists>user_nodes item_nodes.
            requests rd' = requests rd @
              [NegativeRequest (num_neg rd) (dst_nodes rd') (dst_nodes rd'),
               SubGraphRequest user_nodes (num_neighbors rd),
               SubGraphRequest item_nodes (num_neighbors rd)]"
    unfolding d by (subst r) simp
  have p: "\<forall>neg_nodes \<in> set (neg_nodes_list rd'). set neg_nodes \<subseteq> set (dst_nodes rd')"
    if "draws_from_pool C"
    using that s unfolding draws_from_pool_def by (metis snd_conv)
  from nb d s q p show ?thesis by simp
qed

theorem C5_negatives_from_destinations_witness:
  "\<exists>rd' inst'.
     GetTrainBatch demo (demo_reader True 32 demo_source) empty_instance = Inr (True, rd', inst') \<and>
     dst_nodes rd' = [I1, I1] \<and> neg_nodes_list rd' = [[I1], [I1]] \<and>
     SharedSampleNegative demo 1 [I1, I1] [I1, I1] = (True, [[I1], [I1]]) \<and>
     requests rd' = [NegativeRequest 1 [I1, I1] [I1, I1], SubGraphRequest [U1, U2] [],
                     SubGraphRequest [I1, I1, I1, I1] []] \<and>
     set (concat (neg_nodes_list rd')) \<subseteq> set (dst_nodes rd')"
proof -
  obtain rd' inst' where
    run: "GetTrainBatch demo (demo_reader True 32 demo_source) empty_instance = Inr (True, rd', inst')"
    using demo_train_run by blast
  from C5_negatives_from_destinations[OF run] demo_contracts(1)
  have "\<forall>neg_nodes \<in> set (neg_nodes_list rd'). set neg_nodes \<subseteq> set (dst_nodes rd')"
    and "SharedSampleNegative demo (num_neg (demo_reader True 32 demo_source))
           (dst_nodes rd') (dst_nodes rd') = (True, neg_nodes_list rd')"
    by blast+
  with run show ?thesis
    unfolding demo_train_run by (auto simp: demo_reader_def)
qed

text \<open>
  Claim C6. In both pipelines, when the record source yields no further records the
  builder closes the source, clears the batch of the instance and returns false, as a
  result and not as an abort: the node buffers, the index tables, the error log, the list
  of sampling requests and the entries of the instance are as they were.
\<close>

theorem C6_end_of_stream:
  "(\<not> fst (NextBatch_EdgeValue C (line_parser rd) (reader_batch rd)) \<longrightarrow>
      GetTrainBatch C rd inst =
        Inr (False,
             rd\<lparr>line_parser :=
                  Close C (snd (snd (NextBatch_EdgeValue C (line_parser rd) (reader_batch rd))))\<rparr>,
             inst\<lparr>batch := 0\<rparr>)) \<and>
   (\<not> fst (NextBatch_NodeValue C (line_parser rd) (reader_batch rd)) \<longrightarrow>
      GetPredictBatch C rd inst =
        Inr (False,
             rd\<lparr>line_parser :=
                  Close C (snd (snd (NextBatch_NodeValue C (line_parser rd) (reader_batch rd))))\<rparr>,
             inst\<lparr>batch := 0\<rparr>))"
  by (simp add: GetTrainBatch_def GetPredictBatch_def clear_batch_def split: prod.splits)

theorem C6_end_of_stream_witness:
  "GetTrainBatch demo (demo_reader True 32 demo_drained) (empty_instance\<lparr>batch := 2\<rparr>) =
     Inr (False, demo_reader True 32 (demo_drained\<lparr>closed := True\<rparr>), empty_instance) \<and>
   GetPredictBatch demo (demo_reader False 32 demo_drained) (empty_instance\<lparr>batch := 2\<rparr>) =
     Inr (False, demo_reader False 32 (demo_drained\<lparr>closed := True\<rparr>), empty_instance)"
proof -
  have e: "\<not> fst (NextBatch_EdgeValue demo (line_parser (demo_reader True 32 demo_drained))
                    (reader_batch (demo_reader True 32 demo_drained)))"
    by (simp add: demo_def demo_reader_def demo_drained_def demo_NextBatch_EdgeValue_def)
  have n: "\<not> fst (NextBatch_NodeValue demo (line_parser (demo_reader False 32 demo_drained))
                    (reader_batch (demo_reader False 32 demo_drained)))"
    by (simp add: demo_def demo_reader_def demo_drained_def demo_NextBatch_NodeValue_def)
  from C6_end_of_stream[of demo "demo_reader True 32 demo_drained" "empty_instance\<lparr>batch := 2\<rparr>"]
    C6_end_of_stream[of demo "demo_reader False 32 demo_drained" "empty_instance\<lparr>batch := 2\<rparr>"]
    e n
  show ?thesis
    by (simp add: demo_def demo_reader_def demo_drained_def demo_NextBatch_EdgeValue_def
        demo_NextBatch_NodeValue_def demo_Close_def empty_instance_def)
qed

text \<open>
  Claim C7. In a training batch, a node whose tag is neither the user tag nor the item tag
  and that occurs in a list of negatives is reported and left out of both seed lists;
  the level-0 tables being built from the seeds, it is in neither table, and the unified
  index function of the batch aborts on it instead of resolving it.
\<close>

theorem C7_unrecognized_negative_not_indexed:
  assumes run: "GetTrainBatch_index C rd inst vals = Inr (rd', inst')"
    and lvl: "level0_is_seeds C"
    and bad: "GetNodeType C x \<noteq> user_ns_id rd" "GetNodeType C x \<noteq> item_ns_id rd"
    and neg: "x \<in> set (concat (neg_nodes_list rd'))"
  shows "\<exists>user_nodes item_nodes tu tus ti tis.
           requests rd' = requests rd @
             [NegativeRequest (num_neg rd) (dst_nodes rd') (dst_nodes rd'),
              SubGraphRequest user_nodes (num_neighbors rd),
              SubGraphRequest item_nodes (num_neighbors rd)] \<and>
           x \<notin> set user_nodes \<and> x \<notin> set item_nodes \<and>
           user_indexings rd' = tu # tus \<and> item_indexings rd' = ti # tis \<and>
           set (keys tu) = set user_nodes \<and> set (keys ti) = set item_nodes \<and>
           x \<notin> set (keys tu) \<and> x \<notin> set (keys ti) \<and>
           index_func C rd' x = Inl CheckFailed \<and>
           InvalidNode x (ucast (GetNodeType C x)) (ucast (user_ns_id rd)) (ucast (item_ns_id rd))
             \<in> set (error_log rd')"
proof -
  define D where "D = map dst_node vals"
  define negs where "negs = snd (SharedSampleNegative C (num_neg rd) D D)"
  define seen where "seen = map src_node vals @ D @ concat negs"
  define un where "un = filter (\<lambda>x. GetNodeType C x = user_ns_id rd) seen"
  define it where "it = filter (\<lambda>x. GetNodeType C x \<noteq> user_ns_id rd \<and>
                                    GetNodeType C x = item_ns_id rd) seen"
  note r = GetTrainBatch_index_Inr(2)[OF run, folded D_def, folded negs_def, folded seen_def,
      folded un_def it_def]
  have xs: "x \<in> set seen" using neg by (simp add: seen_def r)
  have xu: "x \<notin> set un" and xi: "x \<notin> set it" using bad by (simp_all add: un_def it_def)
  obtain lu lus where lu: "fst (SampleSubGraph C un (num_neighbors rd)) = lu # lus"
    and su: "set lu = set un"
    using lvl[unfolded level0_is_seeds_def, rule_format, of un "num_neighbors rd"]
    by (auto split: list.splits)
  obtain li lis where li: "fst (SampleSubGraph C it (num_neighbors rd)) = li # lis"
    and si: "set li = set it"
    using lvl[unfolded level0_is_seeds_def, rule_format, of it "num_neighbors rd"]
    by (auto split: list.splits)
  have tu: "user_indexings rd' = Indexing lu # map Indexing lus"
    and ti: "item_indexings rd' = Indexing li # map Indexing lis"
    by (simp_all add: r lu li CreateIndexings_def)
  have id: "user_ns_id rd' = user_ns_id rd" by (simp add: r)
  have q: "requests rd' = requests rd @
             [NegativeRequest (num_neg rd) (dst_nodes rd') (dst_nodes rd'),
              SubGraphRequest un (num_neighbors rd), SubGraphRequest it (num_neighbors rd)]"
    by (subst (1 2 3) r) simp
  have f: "index_func C rd' x = Inl CheckFailed"
    using bad(1) xi si by (simp add: index_func_item[OF tu ti] id Indexing_Get_absent)
  have l: "InvalidNode x (ucast (GetNodeType C x)) (ucast (user_ns_id rd)) (ucast (item_ns_id rd))
             \<in> set (error_log rd')"
    using xs bad by (subst r) auto
  from q xu xi tu ti su si f l show ?thesis by auto
qed

theorem C7_unrecognized_negative_not_indexed_witness:
  "\<exists>rd' inst'.
     GetTrainBatch_index demo_corpus (demo_reader True 32 demo_source) empty_instance
       [\<lparr>src_node = U1, dst_node = I1\<rparr>, \<lparr>src_node = U2, dst_node = I1\<rparr>] = Inr (rd', inst') \<and>
     src_nodes rd' = [U1, U2] \<and> dst_nodes rd' = [I1, I1] \<and> neg_nodes_list rd' = [[X9], [X9]] \<and>
     user_indexings rd' = [Indexing [U1, U2]] \<and> item_indexings rd' = [Indexing [I1]] \<and>
     index_func demo_corpus rd' X9 = Inl CheckFailed \<and>
     InvalidNode X9 7 0 1 \<in> set (error_log rd')"
proof -
  let ?rd = "demo_reader True 32 demo_source"
  obtain rd' inst' where
    run: "GetTrainBatch_index demo_corpus ?rd empty_instance
            [\<lparr>src_node = U1, dst_node = I1\<rparr>, \<lparr>src_node = U2, dst_node = I1\<rparr>] = Inr (rd', inst')"
    using demo_corpus_index_run by blast
  have lvl: "level0_is_seeds demo_corpus"
    using demo_contracts(2) by (simp add: level0_is_seeds_def demo_corpus_def)
  have bad: "GetNodeType demo_corpus X9 \<noteq> user_ns_id ?rd" "GetNodeType demo_corpus X9 \<noteq> item_ns_id ?rd"
    by (simp_all add: demo_corpus_def demo_def demo_reader_def demo_tags)
  have neg: "X9 \<in> set (concat (neg_nodes_list rd'))"
    using run unfolding demo_corpus_index_run by auto
  from C7_unrecognized_negative_not_indexed[OF run lvl bad neg]
  have "index_func demo_corpus rd' X9 = Inl CheckFailed"
    and "InvalidNode X9 (ucast (GetNodeType demo_corpus X9)) (ucast (user_ns_id ?rd))
           (ucast (item_ns_id ?rd)) \<in> set (error_log rd')"
    by blast+
  with run show ?thesis
    unfolding demo_corpus_index_run by (auto simp: demo_reader_def)
qed

text \<open>
  Claim C8. The training batch of the two edges \<open>(u1, i1)\<close> and \<open>(u2, i1)\<close>, with one
  negative per edge, user tag 0 and item tag 1, \<open>u1\<close> and \<open>u2\<close> two user nodes and
  \<open>i1\<close> an item node: the level-0 user table has size 2 and gives the two user nodes the
  indices 0 and 1, in some order; \<open>i1\<close> resolves to the flat index 2; the edge fill is run
  on the two sources, the two destinations and the negatives with this index function for
  both endpoints; and the batch size is 2.
\<close>

theorem C8_two_edges_scenario:
  assumes nb: "NextBatch_EdgeValue C (line_parser rd) (reader_batch rd) =
                 (True, [\<lparr>src_node = u1, dst_node = i1\<rparr>, \<lparr>src_node = u2, dst_node = i1\<rparr>], lp)"
    and cfg: "num_neg rd = 1" "user_ns_id rd = 0" "item_ns_id rd = 1"
    and tags: "GetNodeType C u1 = 0" "GetNodeType C u2 = 0" "GetNodeType C i1 = 1"
    and ne: "u1 \<noteq> u2"
    and sn: "SharedSampleNegative C 1 [i1, i1] [i1, i1] = (True, negs)"
    and pool: "draws_from_pool C"
    and lvl: "level0_is_seeds C"
  shows "\<exists>rd' inst1 tu tus a b.
           GetTrainBatch C rd inst =
             (case FillEdgeAndLabel C inst1 (X_SRC_ID_NAME C) (X_DST_ID_NAME C) (Y_NAME C)
                     [u1, u2] [i1, i1] negs (index_func C rd') (index_func C rd') of
                Inl e \<Rightarrow> Inl e
              | Inr inst2 \<Rightarrow> Inr (True, rd', set_batch inst2 2)) \<and>
           user_indexings rd' = tu # tus \<and> Indexing_Size tu = 2 \<and>
           sint (Indexing_Get tu u1) = int a \<and> sint (Indexing_Get tu u2) = int b \<and>
           a < 2 \<and> b < 2 \<and> a \<noteq> b \<and>
           index_func C rd' u1 = Inr (of_nat a) \<and> index_func C rd' u2 = Inr (of_nat b) \<and>
           index_func C rd' i1 = Inr 2"
proof -
  let ?vals = "[\<lparr>src_node = u1, dst_node = i1\<rparr>, \<lparr>src_node = u2, dst_node = i1\<rparr>]"
  let ?rd0 = "rd\<lparr>line_parser := lp\<rparr>"
  have sn0: "SharedSampleNegative C (num_neg ?rd0) (map dst_node ?vals) (map dst_node ?vals) =
               (True, negs)"
    using sn cfg by simp
  then obtain rd' inst1 where run: "GetTrainBatch_index C ?rd0 inst ?vals = Inr (rd', inst1)"
    using GetTrainBatch_index_total[of C ?rd0 ?vals inst] by auto
  define seen where "seen = [u1, u2] @ [i1, i1] @ concat negs"
  define un where "un = filter (\<lambda>x. GetNodeType C x = 0) seen"
  define it where "it = filter (\<lambda>x. GetNodeType C x \<noteq> 0 \<and> GetNodeType C x = 1) seen"
  have r: "rd' = rd\<lparr>line_parser := lp, src_nodes := [u1, u2], dst_nodes := [i1, i1],
                     neg_nodes_list := negs,
                     requests := requests rd @
                       [NegativeRequest 1 [i1, i1] [i1, i1], SubGraphRequest un (num_neighbors rd),
                        SubGraphRequest it (num_neighbors rd)],
                     error_log := error_log rd @
                       map (\<lambda>x. InvalidNode x (ucast (GetNodeType C x)) (ucast (0 :: uint16_t))
                                   (ucast (1 :: uint16_t)))
                         (filter (\<lambda>x. GetNodeType C x \<noteq> 0 \<and> GetNodeType C x \<noteq> 1) seen),
                     user_indexings := CreateIndexings (fst (SampleSubGraph C un (num_neighbors rd))),
                     item_indexings := CreateIndexings (fst (SampleSubGraph C it (num_neighbors rd)))\<rparr>"
    using GetTrainBatch_index_Inr(2)[OF run] sn cfg
    by (simp add: seen_def un_def it_def)
  have negs_i1: "set (concat negs) \<subseteq> {i1}"
    using pool sn unfolding draws_from_pool_def by (metis (no_types, opaque_lifting) snd_conv set_concat UN_least empty_set insert_absorb2 list.simps(15))
  have un: "un = [u1, u2]"
    using negs_i1 tags by (auto simp: un_def seen_def filter_empty_conv)
  have it: "set it = {i1}"
    using negs_i1 tags by (auto simp: it_def seen_def)
  obtain lu lus where lu: "fst (SampleSubGraph C un (num_neighbors rd)) = lu # lus"
    and du: "distinct lu" and su: "set lu = {u1, u2}"
    using lvl[unfolded level0_is_seeds_def, rule_format, of un "num_neighbors rd"] un
    by (auto split: list.splits)
  obtain li lis where li: "fst (SampleSubGraph C it (num_neighbors rd)) = li # lis"
    and di: "distinct li" and si: "set li = {i1}"
    using lvl[unfolded level0_is_seeds_def, rule_format, of it "num_neighbors rd"] it
    by (auto split: list.splits)
  have len_u: "length lu = 2" using distinct_card[OF du] su ne by simp
  have len_i: "length li = 1" using distinct_card[OF di] si by simp
  have tu: "user_indexings rd' = Indexing lu # map Indexing lus"
    and ti: "item_indexings rd' = Indexing li # map Indexing lis"
    by (simp_all add: r lu li CreateIndexings_def)
  have oku: "Indexing_ok (Indexing lu)" and oki: "Indexing_ok (Indexing li)"
    using du di len_u len_i by (simp_all add: Indexing_ok_def)
  have id: "user_ns_id rd' = 0" using cfg by (simp add: r)
  obtain a where a: "position lu u1 = Some a" using position_Some[of u1 lu] su by auto
  obtain b where b: "position lu u2 = Some b" using position_Some[of u2 lu] su by auto
  obtain j where j: "position li i1 = Some j" using position_Some[of i1 li] si by auto
  have a2: "a < 2" and b2: "b < 2" and j0: "j = 0"
    using position_SomeD[OF a] position_SomeD[OF b] position_SomeD[OF j] len_u len_i by simp_all
  have ab: "a \<noteq> b" using position_inj[OF a] b ne by auto
  have fa: "index_func C rd' u1 = Inr (of_nat a)"
    using index_func_Inr_iff[OF tu ti oku oki, of C u1 "of_nat a"] a tags id by simp
  have fb: "index_func C rd' u2 = Inr (of_nat b)"
    using index_func_Inr_iff[OF tu ti oku oki, of C u2 "of_nat b"] b tags id by simp
  have fi: "index_func C rd' i1 = Inr 2"
    using index_func_Inr_iff[OF tu ti oku oki, of C i1 2] j j0 tags id len_u by simp
  have ga: "sint (Indexing_Get (Indexing lu) u1) = int a"
    and gb: "sint (Indexing_Get (Indexing lu) u2) = int b"
    using Indexing_Get_position(2)[OF oku] a b by simp_all
  have sz: "Indexing_Size (Indexing lu) = 2" by (simp add: Indexing_Size_def len_u)
  have fields: "src_nodes rd' = [u1, u2]" "dst_nodes rd' = [i1, i1]" "neg_nodes_list rd' = negs"
    by (simp_all add: r)
  have g: "GetTrainBatch C rd inst =
             (case FillEdgeAndLabel C inst1 (X_SRC_ID_NAME C) (X_DST_ID_NAME C) (Y_NAME C)
                     [u1, u2] [i1, i1] negs (index_func C rd') (index_func C rd') of
                Inl e \<Rightarrow> Inl e
              | Inr inst2 \<Rightarrow> Inr (True, rd', set_batch inst2 2))"
    by (simp add: GetTrainBatch_def nb run fields split: sum.splits)
  from g tu sz ga gb a2 b2 ab fa fb fi show ?thesis by blast
qed

theorem C8_two_edges_scenario_witness:
  "\<exists>rd' inst'.
     GetTrainBatch demo (demo_reader True 32 demo_source) empty_instance = Inr (True, rd', inst') \<and>
     user_indexings rd' = [Indexing [U1, U2]] \<and> item_indexings rd' = [Indexing [I1]] \<and>
     index_func demo rd' U1 = Inr 0 \<and> index_func demo rd' U2 = Inr 1 \<and>
     index_func demo rd' I1 = Inr 2 \<and>
     csr_items inst' ''X_src_id'' = Some [[(0, 1)], [(1, 1)]] \<and>
     csr_items inst' ''X_dst_id'' = Some [[(2, 1)], [(2, 1)], [(2, 1)], [(2, 1)]] \<and>
     batch inst' = 2"
proof -
  let ?rd = "demo_reader True 32 demo_source"
  have nb: "NextBatch_EdgeValue demo (line_parser ?rd) (reader_batch ?rd) =
              (True, [\<lparr>src_node = U1, dst_node = I1\<rparr>, \<lparr>src_node = U2, dst_node = I1\<rparr>],
               demo_source\<lparr>edge_records := []\<rparr>)"
    by (simp add: demo_def demo_reader_def demo_source_def demo_NextBatch_EdgeValue_def)
  have cfg: "num_neg ?rd = 1" "user_ns_id ?rd = 0" "item_ns_id ?rd = 1"
    by (simp_all add: demo_reader_def)
  have tags: "GetNodeType demo U1 = 0" "GetNodeType demo U2 = 0" "GetNodeType demo I1 = 1"
    by (simp_all add: demo_def demo_tags)
  have sn: "SharedSampleNegative demo 1 [I1, I1] [I1, I1] = (True, [[I1], [I1]])"
    by (simp add: demo_def demo_SharedSampleNegative_def)
  obtain R inst' where run: "GetTrainBatch demo ?rd empty_instance = Inr (True, R, inst')"
    and tu: "user_indexings R = [Indexing [U1, U2]]" and ti: "item_indexings R = [Indexing [I1]]"
    and id: "user_ns_id R = 0"
    and src: "csr_items inst' ''X_src_id'' = Some [[(0, 1)], [(1, 1)]]"
    and dst: "csr_items inst' ''X_dst_id'' = Some [[(2, 1)], [(2, 1)], [(2, 1)], [(2, 1)]]"
    and bs: "batch inst' = 2"
    using demo_train_run by (simp add: demo_reader_def empty_instance_def)
  from C8_two_edges_scenario[OF nb cfg tags demo_nodes_distinct(1) sn demo_contracts,
      of empty_instance]
  obtain rd' inst1 where
    g: "GetTrainBatch demo ?rd empty_instance =
          (case FillEdgeAndLabel demo inst1 (X_SRC_ID_NAME demo) (X_DST_ID_NAME demo) (Y_NAME demo)
                  [U1, U2] [I1, I1] [[I1], [I1]] (index_func demo rd') (index_func demo rd') of
             Inl e \<Rightarrow> Inl e
           | Inr inst2 \<Rightarrow> Inr (True, rd', set_batch inst2 2))"
    and f: "index_func demo rd' I1 = Inr 2"
    by blast
  have "rd' = R"
    using g unfolding run
    by (cases "FillEdgeAndLabel demo inst1 (X_SRC_ID_NAME demo) (X_DST_ID_NAME demo) (Y_NAME demo)
                  [U1, U2] [I1, I1] [[I1], [I1]] (index_func demo rd') (index_func demo rd')")
      simp_all
  with f have fi: "index_func demo R I1 = Inr 2" by simp
  have fu: "index_func demo R U1 = Inr 0" "index_func demo R U2 = Inr 1"
    using demo_nodes_distinct
    by (simp_all add: index_func_user[OF tu] tags id Indexing_Get_def)
  from run tu ti fu fi src dst bs show ?thesis by blast
qed

text \<open>
  Claim C9. In every inference batch that is built, the predict-node entry of the instance
  is the sequence of the nodes read, in the order read, whatever their tags and indices,
  and the reported batch size is the number of records read. The record source hands out
  at most \<^verbatim>\<open>batch_\<close> records, an \<^verbatim>\<open>int\<close>, which is what keeps the count within the
  \<^verbatim>\<open>int\<close> that \<^verbatim>\<open>set_batch\<close> takes.
\<close>

theorem C9_predict_nodes_verbatim:
  assumes run: "GetPredictBatch C rd inst = Inr (True, rd', inst')"
    and bound: "length (fst (snd (NextBatch_NodeValue C (line_parser rd) (reader_batch rd))))
                  \<le> nat (sint (reader_batch rd))"
  shows "vec_int_items inst' (X_PREDICT_NODE_NAME C) =
           Some (map node (fst (snd (NextBatch_NodeValue C (line_parser rd) (reader_batch rd))))) \<and>
         src_nodes rd' =
           map node (fst (snd (NextBatch_NodeValue C (line_parser rd) (reader_batch rd)))) \<and>
         sint (batch inst') =
           int (length (fst (snd (NextBatch_NodeValue C (line_parser rd) (reader_batch rd)))))"
proof -
  from run obtain vals lp inst3 where
    nb: "NextBatch_NodeValue C (line_parser rd) (reader_batch rd) = (True, vals, lp)"
    and s: "src_nodes rd' = map node vals"
    and i: "inst' = set_batch
               (inst3\<lparr>vec_int_items :=
                        (vec_int_items inst3)(X_PREDICT_NODE_NAME C \<mapsto> map node vals)\<rparr>)
               (ucast (of_nat (length vals) :: size_t))"
    by (rule GetPredictBatch_True)
  have "sint (reader_batch rd) < 2 ^ 31" using sint_lt[of "reader_batch rd"] by simp
  with bound nb have "length vals < 2 ^ 31" by simp
  then have "sint (ucast (of_nat (length vals) :: size_t) :: cint) = int (length vals)"
    by (rule narrow_length)
  with nb s i show ?thesis by (simp add: set_batch_def)
qed

theorem C9_predict_nodes_verbatim_witness:
  "\<exists>rd' inst'.
     GetPredictBatch demo (demo_reader False 32 demo_source) empty_instance = Inr (True, rd', inst') \<and>
     vec_int_items inst' ''X_predict_node'' = Some [I5, U3] \<and>
     csr_items inst' ''X_src_id'' = Some [[(1, 1)], [(0, 1)]] \<and>
     src_nodes rd' = [I5, U3] \<and> sint (batch inst') = 2"
proof -
  obtain rd' inst' where
    run: "GetPredictBatch demo (demo_reader False 32 demo_source) empty_instance = Inr (True, rd', inst')"
    using demo_predict_run by blast
  have nb: "NextBatch_NodeValue demo (line_parser (demo_reader False 32 demo_source))
              (reader_batch (demo_reader False 32 demo_source)) =
            (True, [\<lparr>node = I5\<rparr>, \<lparr>node = U3\<rparr>], demo_source\<lparr>node_records := []\<rparr>)"
    by (simp add: demo_def demo_reader_def demo_source_def demo_NextBatch_NodeValue_def)
  have bound: "length (fst (snd (NextBatch_NodeValue demo (line_parser (demo_reader False 32 demo_source))
                 (reader_batch (demo_reader False 32 demo_source)))))
               \<le> nat (sint (reader_batch (demo_reader False 32 demo_source)))"
    unfolding nb by (simp add: demo_reader_def)
  have name: "X_PREDICT_NODE_NAME demo = ''X_predict_node''" by (simp add: demo_def)
  from C9_predict_nodes_verbatim[OF run bound] run
  show ?thesis unfolding nb name by (auto simp: demo_predict_run)
qed

text \<open>
  Claim C10. \<^verbatim>\<open>Index\<close> returns the 64-bit value of the training-path index function
  narrowed to a 32-bit \<^verbatim>\<open>int\<close>: the value modulo \<open>2 ^ 32\<close>, read as signed. The
  \<^verbatim>\<open>int\<close> equals the unified index exactly when the index is below \<open>2 ^ 31\<close>.
  \<^verbatim>\<open>FillIndex\<close> writes, for every node, the \<^verbatim>\<open>int\<close> widened again as the column of
  the node's row, and this is the index tensor of every inference batch that is built; the
  column equals the unified index exactly when the index fits a signed 32-bit integer. The
  training-path function returns the value itself.
\<close>

theorem C10_Index_narrowing:
  "Index C rd x = (case index_func C rd x of Inl e \<Rightarrow> Inl e | Inr v \<Rightarrow> Inr (ucast v)) \<and>
   (\<forall>v :: int_t.
      uint (ucast v :: cint) = uint v mod 2 ^ 32 \<and>
      sint (ucast v :: cint) = signed_take_bit 31 (uint v) \<and>
      ((sint (ucast v :: cint) = uint v) = (uint v < 2 ^ 31)) \<and>
      (((scast (ucast v :: cint) :: int_t) = v) = (- (2 ^ 31) \<le> sint v \<and> sint v < 2 ^ 31))) \<and>
   ((FillIndex_loop C rd nodes rows = Inr rows') =
      (\<exists>vs. map (index_func C rd) nodes = map Inr vs \<and>
            rows' = rows @ map (\<lambda>v. [(scast (ucast v :: cint), 1)]) vs)) \<and>
   ((FillIndex C rd inst name nodes = Inr inst') =
      (\<exists>vs. map (index_func C rd) nodes = map Inr vs \<and>
            inst' = inst\<lparr>csr_items :=
                           (csr_items inst)(name \<mapsto> map (\<lambda>v. [(scast (ucast v :: cint), 1)]) vs)\<rparr>)) \<and>
   (GetPredictBatch C rd0 inst0 = Inr (True, rd1, inst1) \<longrightarrow>
      (\<exists>vs. map (index_func C rd1) (src_nodes rd1) = map Inr vs \<and>
            csr_items inst1 (X_SRC_ID_NAME C) =
              Some (map (\<lambda>v. [(scast (ucast v :: cint), 1)]) vs)))"
proof -
  have a: "Index C rd x = (case index_func C rd x of Inl e \<Rightarrow> Inl e | Inr v \<Rightarrow> Inr (ucast v))"
    by (rule Index_narrows)
  have b: "\<forall>v :: int_t.
      uint (ucast v :: cint) = uint v mod 2 ^ 32 \<and>
      sint (ucast v :: cint) = signed_take_bit 31 (uint v) \<and>
      ((sint (ucast v :: cint) = uint v) = (uint v < 2 ^ 31)) \<and>
      (((scast (ucast v :: cint) :: int_t) = v) = (- (2 ^ 31) \<le> sint v \<and> sint v < 2 ^ 31))"
    using uint_narrow sint_narrow sint_narrow_eq_iff widen_narrow_eq_iff by blast
  note c = FillIndex_loop_Inr[of C rd nodes rows rows']
  note d = FillIndex_Inr[of C rd inst name nodes inst']
  have e: "\<exists>vs. map (index_func C rd1) (src_nodes rd1) = map Inr vs \<and>
            csr_items inst1 (X_SRC_ID_NAME C) =
              Some (map (\<lambda>v. [(scast (ucast v :: cint), 1)]) vs)"
    if "GetPredictBatch C rd0 inst0 = Inr (True, rd1, inst1)"
    using that by (rule GetPredictBatch_tensor)
  show ?thesis
    apply (intro conjI impI)
        apply (rule a)
       apply (rule b)
      apply (rule c)
     apply (rule d)
    apply (erule e)
    done
qed

theorem C10_Index_narrowing_witness:
  "index_func demo demo_huge I1 = Inr 2147483648 \<and>
   Index demo demo_huge I1 = Inr (- 2147483648) \<and>
   FillIndex_loop demo demo_huge [I1] [] = Inr [[(18446744071562067968, 1)]] \<and>
   FillIndex demo demo_huge empty_instance ''X_src_id'' [I1] =
     Inr (empty_instance\<lparr>csr_items := [''X_src_id'' \<mapsto> [[(18446744071562067968, 1)]]]\<rparr>) \<and>
   (\<exists>rd' inst'.
      GetPredictBatch demo (demo_reader False 32 demo_source) empty_instance = Inr (True, rd', inst') \<and>
      map (index_func demo rd') (src_nodes rd') = [Inr 1, Inr 0] \<and>
      csr_items inst' ''X_src_id'' = Some [[(1, 1)], [(0, 1)]])"
proof -
  have u: "user_indexings demo_huge = Indexing (map of_nat [0..<2 ^ 31]) # []"
    and i: "item_indexings demo_huge = Indexing [I1] # []"
    by (simp_all add: demo_huge_def demo_reader_def)
  have t: "GetNodeType demo I1 \<noteq> user_ns_id demo_huge"
    by (simp add: demo_huge_def demo_reader_def demo_def demo_tags)
  have f: "index_func demo demo_huge I1 = Inr 2147483648"
    by (simp add: index_func_item[OF u i t] Indexing_Get_def Indexing_Size_def)
  have m: "map (index_func demo demo_huge) [I1] = map Inr [2147483648]"
    by (simp add: f)
  obtain rd' inst' where
    run: "GetPredictBatch demo (demo_reader False 32 demo_source) empty_instance = Inr (True, rd', inst')"
    using demo_predict_run by blast
  note th = C10_Index_narrowing[of demo demo_huge I1 "[I1]" "[]" "[[(18446744071562067968, 1)]]"
      empty_instance "''X_src_id''"
      "empty_instance\<lparr>csr_items := [''X_src_id'' \<mapsto> [[(18446744071562067968, 1)]]]\<rparr>"
      "demo_reader False 32 demo_source" empty_instance rd' inst']
  have p1: "Index demo demo_huge I1 = Inr (- 2147483648)"
    using th f by simp
  have p2: "FillIndex_loop demo demo_huge [I1] [] = Inr [[(18446744071562067968, 1)]]"
    using th m by (simp add: map_eq_Cons_conv)
  have col: "(18446744071562067968 :: int_t) = - 2147483648" by simp
  have p3: "FillIndex demo demo_huge empty_instance ''X_src_id'' [I1] =
     Inr (empty_instance\<lparr>csr_items := [''X_src_id'' \<mapsto> [[(18446744071562067968, 1)]]]\<rparr>)"
  proof -
    have "\<exists>vs. map (index_func demo demo_huge) [I1] = map Inr vs \<and>
            empty_instance\<lparr>csr_items := [''X_src_id'' \<mapsto> [[(18446744071562067968, 1)]]]\<rparr> =
            empty_instance\<lparr>csr_items := (csr_items empty_instance)
              (''X_src_id'' \<mapsto> map (\<lambda>v. [(scast (ucast v :: cint), 1)]) vs)\<rparr>"
      by (rule exI[of _ "[2147483648]"]) (simp add: f empty_instance_def col)
    with th show ?thesis by blast
  qed
  from th run obtain vs where
    v: "map (index_func demo rd') (src_nodes rd') = map Inr vs"
    and c: "csr_items inst' (X_SRC_ID_NAME demo) = Some (map (\<lambda>v. [(scast (ucast v :: cint), 1)]) vs)"
    by blast
  have r: "rd' = (demo_reader False 32 (demo_source\<lparr>node_records := []\<rparr>))
            \<lparr>src_nodes := [I5, U3],
             user_indexings := [Indexing [U3]], item_indexings := [Indexing [I5]],
             requests := [SubGraphRequest [U3] [], SubGraphRequest [I5] []]\<rparr>"
    and ii: "csr_items inst' ''X_src_id'' = Some [[(1, 1)], [(0, 1)]]"
    using run unfolding demo_predict_run by (auto simp: empty_instance_def)
  have tu: "user_indexings rd' = Indexing [U3] # []" and ti: "item_indexings rd' = Indexing [I5] # []"
    and id: "user_ns_id rd' = 0" and sr: "src_nodes rd' = [I5, U3]"
    unfolding r by (simp_all add: demo_reader_def)
  have tg: "GetNodeType demo I5 \<noteq> user_ns_id rd'" "GetNodeType demo U3 = user_ns_id rd'"
    by (simp_all add: id demo_def demo_tags)
  have q: "map (index_func demo rd') (src_nodes rd') = [Inr 1, Inr 0]"
    by (simp add: sr index_func_item[OF tu ti tg(1)] index_func_user[OF tu tg(2)]
        Indexing_Get_def Indexing_Size_def)
  have ex: "\<exists>rd' inst'.
      GetPredictBatch demo (demo_reader False 32 demo_source) empty_instance = Inr (True, rd', inst') \<and>
      map (index_func demo rd') (src_nodes rd') = [Inr 1, Inr 0] \<and>
      csr_items inst' ''X_src_id'' = Some [[(1, 1)], [(0, 1)]]"
    using v c
    apply (intro exI[of _ rd'] exI[of _ inst'] conjI)
      apply (rule run)
     apply (rule q)
    apply (rule ii)
    done
  show ?thesis
    apply (intro conjI)
        apply (rule f)
       apply (rule p1)
      apply (rule p2)
     apply (rule p3)
    apply (rule ex)
    done
qed

end
